theory Spec2Isabelle
  imports Main
begin

section \<open>Strings and URL normalisation\<close>

text \<open>
  Python's \<^verbatim>\<open>str\<close> is modelled as \<^typ>\<open>string\<close>, one \<^typ>\<open>char\<close> per code point
  below 256. \<open>is_space\<close> lists the code points of that range that \<^verbatim>\<open>str.strip()\<close>
  removes: tab, line feed, vertical tab, form feed, carriage return, the four separators
  0x1C..0x1F, space, NEL (0x85) and the no-break space (0xA0).
\<close>

definition is_space :: "char \<Rightarrow> bool" where
  "is_space c = (c \<in> set [CHR 0x09, CHR 0x0A, CHR 0x0B, CHR 0x0C, CHR 0x0D,
                            CHR 0x1C, CHR 0x1D, CHR 0x1E, CHR 0x1F, CHR 0x20,
                            CHR 0x85, CHR 0xA0])"

definition strip :: "string \<Rightarrow> string" where
  "strip s = rev (dropWhile is_space (rev (dropWhile is_space s)))"

definition startswith :: "string \<Rightarrow> string \<Rightarrow> bool" where
  "startswith s p = (take (length p) s = p)"

text \<open>
  \<^verbatim>\<open>
  def format_url(url_str):
      url_str = url_str.strip()
      if not (url_str.startswith("http://") or url_str.startswith("https://")):
          url_str = "https://" + url_str
      return url_str
  \<close>
\<close>

definition format_url :: "string \<Rightarrow> string" where
  "format_url url_str =
     (let url_str = strip url_str
      in if \<not> (startswith url_str ''http://'' \<or> startswith url_str ''https://'')
         then ''https://'' @ url_str
         else url_str)"

section \<open>Grid shape\<close>

text \<open>
  \<^verbatim>\<open>
  def get_grid_for_slots(slots):
      if slots <= 1:    return 1, 1
      elif slots == 2:  return 1, 2
      elif slots <= 4:  return 2, 2
      elif slots <= 6:  return 2, 3
      elif slots <= 9:  return 3, 3
      elif slots <= 12: return 3, 4
      elif slots <= 16: return 4, 4
      else:             return 4, 4
  \<close>
\<close>

definition get_grid_for_slots :: "int \<Rightarrow> int \<times> int" where
  "get_grid_for_slots slots =
     (if slots \<le> 1 then (1, 1)
      else if slots = 2 then (1, 2)
      else if slots \<le> 4 then (2, 2)
      else if slots \<le> 6 then (2, 3)
      else if slots \<le> 9 then (3, 3)
      else if slots \<le> 12 then (3, 4)
      else if slots \<le> 16 then (4, 4)
      else (4, 4))"

section \<open>Python values used by the program\<close>

datatype py_error = IndexError | ValueError

text \<open>\<^verbatim>\<open>xs[i]\<close>: a negative index counts from the end, an index out of range raises.\<close>

definition py_index :: "'a list \<Rightarrow> int \<Rightarrow> py_error + 'a" where
  "py_index xs i =
     (if 0 \<le> i \<and> i < int (length xs) then Inr (xs ! nat i)
      else if i < 0 \<and> - int (length xs) \<le> i then Inr (xs ! nat (int (length xs) + i))
      else Inl IndexError)"

text \<open>
  \<^verbatim>\<open>int(text)\<close> on a string of code points below 256: surrounding whitespace is
  ignored, then an optional sign, then decimal digits, where single underscores may
  stand between two digits. Everything else raises ValueError. (The interpreter's
  configurable limit on the number of digits is not modelled.)
\<close>

definition is_digit :: "char \<Rightarrow> bool" where
  "is_digit c = (48 \<le> (of_char c :: nat) \<and> (of_char c :: nat) \<le> 57)"

definition digit_val :: "char \<Rightarrow> int" where
  "digit_val c = int (of_char c) - 48"

fun digits_from :: "int \<Rightarrow> string \<Rightarrow> int option" where
  "digits_from acc [] = Some acc"
| "digits_from acc (c # cs) =
     (if is_digit c then digits_from (acc * 10 + digit_val c) cs
      else if c = CHR ''_'' then
        (case cs of
           [] \<Rightarrow> None
         | d # ds \<Rightarrow> if is_digit d then digits_from (acc * 10 + digit_val d) ds else None)
      else None)"

definition py_int :: "string \<Rightarrow> py_error + int" where
  "py_int text =
     (let s = strip text;
          neg = (s \<noteq> [] \<and> hd s = CHR ''-'');
          body = (if s \<noteq> [] \<and> (hd s = CHR ''-'' \<or> hd s = CHR ''+'') then tl s else s)
      in case body of
           [] \<Rightarrow> Inl ValueError
         | d # ds \<Rightarrow>
             if is_digit d then
               (case digits_from (digit_val d) ds of
                  None \<Rightarrow> Inl ValueError
                | Some v \<Rightarrow> Inr (if neg then - v else v))
             else Inl ValueError)"

text \<open>
  \<^verbatim>\<open>sep in s\<close> together with \<^verbatim>\<open>s.split(sep, 1)\<close>, for a non-empty separator:
  the parts before and after the first occurrence of \<open>sep\<close>, or \<open>None\<close> when \<open>sep\<close>
  does not occur.
\<close>

fun split_once :: "string \<Rightarrow> string \<Rightarrow> string \<Rightarrow> (string \<times> string) option" where
  "split_once sep before [] = None"
| "split_once sep before (c # cs) =
     (if startswith (c # cs) sep then Some (before, drop (length sep) (c # cs))
      else split_once sep (before @ [c]) cs)"

section \<open>Pages, views and windows\<close>

text \<open>A page is the dictionary \<^verbatim>\<open>{"title": ..., "url": ...}\<close>.\<close>

record page =
  title :: string
  url :: string

text \<open>The geometry of a \<^verbatim>\<open>QScreen\<close>, as \<^verbatim>\<open>QApplication.screens()\<close> reports it.\<close>

record screen =
  geometry_x :: int
  geometry_y :: int
  geometry_width :: int
  geometry_height :: int

text \<open>
  A \<^verbatim>\<open>QWebEngineView\<close> is the external renderer. Its state is the URL it holds (empty
  when fresh); the calls the program makes on views are logged as \<open>renderer_call\<close>s.
  Widget styling, the zoom factor and the \<^verbatim>\<open>QTimer\<close> objects are not part of the state:
  a timer firing is a call of the handler connected to it (\<open>show_next_page\<close> or
  \<open>refresh_all_views\<close>).
\<close>

record web_view =
  view_url :: string

datatype renderer_call = SetUrl string | Reload web_view

definition QWebEngineView :: web_view where
  "QWebEngineView = \<lparr>view_url = []\<rparr>"

definition setUrl :: "web_view \<Rightarrow> string \<Rightarrow> web_view" where
  "setUrl view u = view\<lparr>view_url := u\<rparr>"

subsection \<open>Single-screen rolling window\<close>

record single_screen_window =
  sw_pages :: "page list"
  sw_refresh_interval :: int
  current_index :: int
  title_label :: string
  webview :: web_view
  sw_visible :: bool

text \<open>
  \<^verbatim>\<open>
  def show_next_page(self):
      if not self.pages:
          return
      page = self.pages[self.current_index]
      self.title_label.setText(page["title"])
      self.webview.setUrl(QUrl(format_url(page["url"])))
      self.current_index = (self.current_index + 1) % len(self.pages)
  \<close>
  The result is the list of renderer calls made and the window afterwards.
\<close>

definition show_next_page ::
  "single_screen_window \<Rightarrow> py_error + (renderer_call list \<times> single_screen_window)" where
  "show_next_page self =
     (if sw_pages self = [] then Inr ([], self)
      else case py_index (sw_pages self) (current_index self) of
             Inl e \<Rightarrow> Inl e
           | Inr page \<Rightarrow>
               Inr ([SetUrl (format_url (url page))],
                    self\<lparr>title_label := title page,
                         webview := setUrl (webview self) (format_url (url page)),
                         current_index :=
                           (current_index self + 1) mod int (length (sw_pages self))\<rparr>))"

text \<open>
  The fields \<^verbatim>\<open>SingleScreenWindow.__init__\<close> sets before its last statement, and the
  constructor itself, which ends with the immediate call \<^verbatim>\<open>self.show_next_page()\<close>.
\<close>

definition SingleScreenWindow_fields :: "page list \<Rightarrow> int \<Rightarrow> single_screen_window" where
  "SingleScreenWindow_fields ps interval =
     \<lparr>sw_pages = ps, sw_refresh_interval = interval, current_index = 0,
      title_label = [], webview = QWebEngineView, sw_visible = False\<rparr>"

definition SingleScreenWindow_init ::
  "page list \<Rightarrow> int \<Rightarrow> py_error + (renderer_call list \<times> single_screen_window)" where
  "SingleScreenWindow_init ps interval =
     show_next_page (SingleScreenWindow_fields ps interval)"

text \<open>The timer firing \<open>k\<close> times in a row: \<open>k\<close> calls of \<open>show_next_page\<close>.\<close>

fun timer_ticks ::
  "nat \<Rightarrow> single_screen_window \<Rightarrow> py_error + (renderer_call list \<times> single_screen_window)" where
  "timer_ticks 0 self = Inr ([], self)"
| "timer_ticks (Suc k) self =
     (case show_next_page self of
        Inl e \<Rightarrow> Inl e
      | Inr (calls, self') \<Rightarrow>
          (case timer_ticks k self' of
             Inl e \<Rightarrow> Inl e
           | Inr (calls', self'') \<Rightarrow> Inr (calls @ calls', self'')))"

text \<open>The rotation invariant: the index points into the page list.\<close>

definition index_in_bounds :: "single_screen_window \<Rightarrow> bool" where
  "index_in_bounds self =
     (0 \<le> current_index self \<and> current_index self < int (length (sw_pages self)))"

subsection \<open>Multi-screen window\<close>

text \<open>
  A grid cell holds either a container (title label and web view) or the "No Signal"
  widget; the grid lists the widgets with the row and column they were added at.
\<close>

datatype widget = Container string web_view | NoSignalWidget

record multi_screen_window =
  mw_geometry :: "int \<times> int \<times> int \<times> int"
  mw_pages :: "page list"
  mw_refresh_interval :: int
  mw_slots_per_screen :: int
  grid :: "(int \<times> int \<times> widget) list"
  views :: "web_view list"
  mw_visible :: bool

text \<open>
  The body of \<^verbatim>\<open>for cell_index in range(total_cells)\<close>, on the renderer calls made so
  far, \<^verbatim>\<open>self.views\<close> and the grid:
  \<^verbatim>\<open>
      r = cell_index // cols
      c = cell_index % cols
      if cell_index < assigned_count:
          ...
          title_label = QLabel(self.pages[cell_index]["title"])
          view = QWebEngineView()
          view.setUrl(QUrl(format_url(self.pages[cell_index]["url"])))
          self.views.append(view)
          grid.addWidget(container, r, c)
      else:
          no_signal = NoSignalWidget()
          grid.addWidget(no_signal, r, c)
  \<close>
\<close>

definition cell_step ::
  "page list \<Rightarrow> int \<Rightarrow> renderer_call list \<times> web_view list \<times> (int \<times> int \<times> widget) list \<Rightarrow> nat
   \<Rightarrow> renderer_call list \<times> web_view list \<times> (int \<times> int \<times> widget) list" where
  "cell_step ps cols st cell_index =
     (case st of (calls, vs, g) \<Rightarrow>
        let r = int cell_index div cols;
            c = int cell_index mod cols;
            assigned_count = length ps
        in if cell_index < assigned_count then
             let view = setUrl QWebEngineView (format_url (url (ps ! cell_index)))
             in (calls @ [SetUrl (format_url (url (ps ! cell_index)))],
                 vs @ [view],
                 g @ [(r, c, Container (title (ps ! cell_index)) view)])
           else (calls, vs, g @ [(r, c, NoSignalWidget)]))"

definition MultiScreenWindow_init ::
  "page list \<Rightarrow> int \<Rightarrow> int \<Rightarrow> int \<Rightarrow> int \<Rightarrow> int \<Rightarrow> int
   \<Rightarrow> renderer_call list \<times> multi_screen_window" where
  "MultiScreenWindow_init ps interval x y width height slots =
     (let (rows, cols) = get_grid_for_slots slots;
          total_cells = rows * cols;
          (calls, vs, g) = foldl (cell_step ps cols) ([], [], []) [0..<nat total_cells]
      in (calls,
          \<lparr>mw_geometry = (x, y, width, height), mw_pages = ps,
           mw_refresh_interval = interval, mw_slots_per_screen = slots,
           grid = g, views = vs, mw_visible = False\<rparr>))"

text \<open>
  \<^verbatim>\<open>
  def refresh_all_views(self):
      for view in self.views:
          view.reload()
  \<close>
\<close>

definition refresh_all_views ::
  "multi_screen_window \<Rightarrow> renderer_call list \<times> multi_screen_window" where
  "refresh_all_views self = (map Reload (views self), self)"

text \<open>The title a grid widget shows, if it shows a page.\<close>

fun widget_title :: "widget \<Rightarrow> string option" where
  "widget_title (Container t v) = Some t"
| "widget_title NoSignalWidget = None"

section \<open>The controller\<close>

datatype window = SingleW single_screen_window | MultiW multi_screen_window

record controller =
  mode :: string
  pages :: "page list"
  refresh_interval :: int
  slots_per_screen :: int
  windows :: "window list"

definition set_pages :: "controller \<Rightarrow> page list \<Rightarrow> controller" where
  "set_pages self ps = self\<lparr>pages := ps\<rparr>"

definition set_refresh_interval :: "controller \<Rightarrow> int \<Rightarrow> controller" where
  "set_refresh_interval self interval = self\<lparr>refresh_interval := interval\<rparr>"

definition set_slots_per_screen :: "controller \<Rightarrow> int \<Rightarrow> controller" where
  "set_slots_per_screen self slots = self\<lparr>slots_per_screen := slots\<rparr>"

definition show_window :: "window \<Rightarrow> window" where
  "show_window win =
     (case win of
        SingleW w \<Rightarrow> SingleW (w\<lparr>sw_visible := True\<rparr>)
      | MultiW w \<Rightarrow> MultiW (w\<lparr>mw_visible := True\<rparr>))"

text \<open>
  The inner loop of the multi-screen branch, \<open>k\<close> iterations left, on the cursor
  \<open>page_index\<close> and the list \<open>screen_pages\<close>:
  \<^verbatim>\<open>
  for _ in range(self.slots_per_screen):
      if page_index < len(self.pages):
          screen_pages.append(self.pages[page_index])
          page_index += 1
      else:
          break
  \<close>
\<close>

fun take_pages :: "nat \<Rightarrow> page list \<Rightarrow> nat \<Rightarrow> page list \<Rightarrow> page list \<times> nat" where
  "take_pages 0 ps page_index screen_pages = (screen_pages, page_index)"
| "take_pages (Suc k) ps page_index screen_pages =
     (if page_index < length ps
      then take_pages k ps (page_index + 1) (screen_pages @ [ps ! page_index])
      else (screen_pages, page_index))"

text \<open>
  The outer loop \<^verbatim>\<open>for screen in app_screens\<close>, on the cursor, the renderer calls made
  so far and \<^verbatim>\<open>self.windows\<close>:
  \<^verbatim>\<open>
      screen_pages = []
      (inner loop)
      if screen_pages or self.slots_per_screen > 0:
          geometry = screen.geometry()
          x, y = geometry.x(), geometry.y()
          w, h = geometry.width(), geometry.height()
          window = MultiScreenWindow(screen_pages, self.refresh_interval,
                                     x, y, w, h, self.slots_per_screen)
          self.windows.append(window)
  \<close>
\<close>

fun screens_loop ::
  "controller \<Rightarrow> screen list \<Rightarrow> nat \<Rightarrow> renderer_call list \<times> window list
   \<Rightarrow> renderer_call list \<times> window list" where
  "screens_loop self [] page_index acc = acc"
| "screens_loop self (scr # rest) page_index (calls, wins) =
     (let (screen_pages, page_index') =
            take_pages (nat (slots_per_screen self)) (pages self) page_index []
      in if screen_pages \<noteq> [] \<or> slots_per_screen self > 0 then
           let (cs, window) =
                 MultiScreenWindow_init screen_pages (refresh_interval self)
                   (geometry_x scr) (geometry_y scr) (geometry_width scr) (geometry_height scr)
                   (slots_per_screen self)
           in screens_loop self rest page_index' (calls @ cs, wins @ [MultiW window])
         else screens_loop self rest page_index' (calls, wins))"

text \<open>
  \<^verbatim>\<open>apply_mode\<close>: the old windows are closed and the list cleared, the windows of the
  current mode are built, and every new window is shown. \<open>app_screens\<close> is what
  \<^verbatim>\<open>QApplication.screens()\<close> returns. The result is the renderer calls made and the
  controller afterwards.
\<close>

definition apply_mode ::
  "screen list \<Rightarrow> controller \<Rightarrow> py_error + (renderer_call list \<times> controller)" where
  "apply_mode app_screens self =
     (if mode self = ''single'' then
        (case SingleScreenWindow_init (pages self) (refresh_interval self) of
           Inl e \<Rightarrow> Inl e
         | Inr (calls, window) \<Rightarrow>
             Inr (calls, self\<lparr>windows := map show_window [SingleW window]\<rparr>))
      else
        (let (calls, wins) = screens_loop self app_screens 0 ([], [])
         in Inr (calls, self\<lparr>windows := map show_window wins\<rparr>)))"

text \<open>A timer of one of the controller's windows fires.\<close>

definition tick_window :: "window \<Rightarrow> py_error + (renderer_call list \<times> window)" where
  "tick_window win =
     (case win of
        SingleW w \<Rightarrow>
          (case show_next_page w of
             Inl e \<Rightarrow> Inl e
           | Inr (calls, w') \<Rightarrow> Inr (calls, SingleW w'))
      | MultiW w \<Rightarrow> (case refresh_all_views w of (calls, w') \<Rightarrow> Inr (calls, MultiW w')))"

section \<open>The settings window\<close>

record settings_window =
  page_list :: "string list"
  refresh_input :: string
  slots_input :: string

datatype ui_event =
    Rendered renderer_call
  | MessageWarning string
  | MessageInformation string
  | SaveConfig "page list" int string int

text \<open>
  \<^verbatim>\<open>
  pages = []
  for i in range(self.page_list.count()):
      item_text = self.page_list.item(i).text()
      if " | " in item_text:
          title_part, url_part = item_text.split(" | ", 1)
          pages.append({"title": title_part, "url": url_part})
  \<close>
\<close>

fun collect_pages :: "string list \<Rightarrow> page list" where
  "collect_pages [] = []"
| "collect_pages (item_text # rest) =
     (case split_once '' | '' [] item_text of
        None \<Rightarrow> collect_pages rest
      | Some (title_part, url_part) \<Rightarrow>
          \<lparr>title = title_part, url = url_part\<rparr> # collect_pages rest)"

text \<open>
  \<^verbatim>\<open>
  slots = int(self.slots_input.text().strip())
  if slots < 1:
      raise ValueError("slots must be >= 1")
  \<close>
\<close>

definition read_slots :: "string \<Rightarrow> py_error + int" where
  "read_slots text =
     (case py_int (strip text) of
        Inl e \<Rightarrow> Inl e
      | Inr slots \<Rightarrow> if slots < 1 then Inl ValueError else Inr slots)"

text \<open>
  \<^verbatim>\<open>save_settings\<close>, statement by statement: the pages are collected and handed to
  the controller; the refresh interval is parsed and, when valid, handed over; the
  slots are parsed, checked and handed over; only then the layout is applied and
  the configuration saved. Each \<^verbatim>\<open>except ValueError\<close> shows a warning and returns.
\<close>

definition save_settings ::
  "screen list \<Rightarrow> settings_window \<Rightarrow> controller \<Rightarrow> py_error + (ui_event list \<times> controller)" where
  "save_settings app_screens self ctl =
     (let ps = collect_pages (page_list self);
          ctl1 = set_pages ctl ps
      in case py_int (strip (refresh_input self)) of
           Inl e \<Rightarrow>
             Inr ([MessageWarning ''Refresh interval must be a valid integer!''], ctl1)
         | Inr interval \<Rightarrow>
             (let ctl2 = set_refresh_interval ctl1 interval
              in case read_slots (slots_input self) of
                   Inl e \<Rightarrow>
                     Inr ([MessageWarning ''Slots per screen must be a valid positive integer!''],
                          ctl2)
                 | Inr slots \<Rightarrow>
                     (let ctl3 = set_slots_per_screen ctl2 slots
                      in case apply_mode app_screens ctl3 of
                           Inl e \<Rightarrow> Inl e
                         | Inr (calls, ctl4) \<Rightarrow>
                             Inr (map Rendered calls
                                  @ [SaveConfig (pages ctl4) (refresh_interval ctl4)
                                       (mode ctl4) (slots_per_screen ctl4),
                                     MessageInformation ''Settings saved and applied!''],
                                  ctl4))))"

section \<open>Properties of the grid shape\<close>

text \<open>
  C2. The grid shape function is a total function of the slot count alone. It returns
  1x1 for s <= 1, 1x2 for s = 2, 2x2 for 3..4, 2x3 for 5..6, 3x3 for 7..9, 3x4 for
  10..12, 4x4 for 13..16 and 4x4 again above 16 (in particular for every s in 1..20),
  and the grid always has at least min(s, 16) cells.
\<close>

theorem get_grid_for_slots_table:
  "(s \<le> 1 \<longrightarrow> get_grid_for_slots s = (1, 1))
   \<and> (s = 2 \<longrightarrow> get_grid_for_slots s = (1, 2))
   \<and> (3 \<le> s \<and> s \<le> 4 \<longrightarrow> get_grid_for_slots s = (2, 2))
   \<and> (5 \<le> s \<and> s \<le> 6 \<longrightarrow> get_grid_for_slots s = (2, 3))
   \<and> (7 \<le> s \<and> s \<le> 9 \<longrightarrow> get_grid_for_slots s = (3, 3))
   \<and> (10 \<le> s \<and> s \<le> 12 \<longrightarrow> get_grid_for_slots s = (3, 4))
   \<and> (13 \<le> s \<and> s \<le> 16 \<longrightarrow> get_grid_for_slots s = (4, 4))
   \<and> (16 < s \<longrightarrow> get_grid_for_slots s = (4, 4))
   \<and> map get_grid_for_slots [1, 2, 3, 4, 5, 6, 7, 8, 9, 10, 11, 12, 13, 14, 15, 16, 17, 18, 19, 20]
       = [(1, 1), (1, 2), (2, 2), (2, 2), (2, 3), (2, 3), (3, 3), (3, 3), (3, 3), (3, 4),
          (3, 4), (3, 4), (4, 4), (4, 4), (4, 4), (4, 4), (4, 4), (4, 4), (4, 4), (4, 4)]
   \<and> fst (get_grid_for_slots s) * snd (get_grid_for_slots s) \<ge> min s 16"
  by (simp add: get_grid_for_slots_def)

theorem get_grid_for_slots_table_witness:
  "get_grid_for_slots 1 = (1, 1) \<and> get_grid_for_slots 2 = (1, 2)
   \<and> get_grid_for_slots 3 = (2, 2) \<and> get_grid_for_slots 5 = (2, 3)
   \<and> get_grid_for_slots 7 = (3, 3) \<and> get_grid_for_slots 10 = (3, 4)
   \<and> get_grid_for_slots 13 = (4, 4) \<and> get_grid_for_slots 17 = (4, 4)
   \<and> fst (get_grid_for_slots 20) * snd (get_grid_for_slots 20) \<ge> min 20 16"
  using get_grid_for_slots_table [of 1] get_grid_for_slots_table [of 2]
    get_grid_for_slots_table [of 3] get_grid_for_slots_table [of 5]
    get_grid_for_slots_table [of 7] get_grid_for_slots_table [of 10]
    get_grid_for_slots_table [of 13] get_grid_for_slots_table [of 17]
    get_grid_for_slots_table [of 20]
  by simp

section \<open>Helper lemmas: whitespace and URL normalisation\<close>

lemma strip_bounds:
  "strip s = [] \<or> (\<not> is_space (hd (strip s)) \<and> \<not> is_space (last (strip s)))"
proof (cases "strip s = []")
  case True then show ?thesis by simp
next
  case False
  let ?a = "dropWhile is_space s"
  let ?b = "dropWhile is_space (rev ?a)"
  have b: "?b \<noteq> []" using False by (simp add: strip_def)
  then have hb: "\<not> is_space (hd ?b)" by (rule hd_dropWhile)
  have la: "last (strip s) = hd ?b" using b by (simp add: strip_def last_rev)
  have a: "?a \<noteq> []"
  proof
    assume "?a = []"
    then have "?b = dropWhile is_space (rev [])" by (rule arg_cong)
    with b show False by simp
  qed
  then have ha: "\<not> is_space (hd ?a)" by (rule hd_dropWhile)
  have "\<not> is_space (last (rev ?a))" using a ha by (simp add: last_rev)
  have "hd (strip s) = last ?b" using b by (simp add: strip_def hd_rev)
  also have "\<dots> = last (rev ?a)"
    using b by (metis takeWhile_dropWhile_id last_appendR)
  also have "\<dots> = hd ?a" using a by (simp add: last_rev)
  finally show ?thesis using ha hb la by simp
qed

lemma strip_id:
  assumes "s = [] \<or> (\<not> is_space (hd s) \<and> \<not> is_space (last s))"
  shows "strip s = s"
proof (cases s)
  case Nil then show ?thesis by (simp add: strip_def)
next
  case (Cons c cs)
  with assms have h: "\<not> is_space c" and l: "\<not> is_space (last s)" by auto
  have 1: "dropWhile is_space s = s" using h Cons by simp
  define r where "r = rev s"
  have "r \<noteq> []" using Cons by (simp add: r_def)
  moreover have "hd r = last s" using Cons by (simp add: hd_rev r_def)
  ultimately have "dropWhile is_space r = r"
    using l by (cases r) auto
  then have 2: "dropWhile is_space (rev s) = rev s" by (simp add: r_def)
  show ?thesis by (simp add: strip_def 1 2)
qed

lemma strip_decomp:
  "\<exists>a b. s = a @ strip s @ b \<and> (\<forall>c \<in> set a. is_space c) \<and> (\<forall>c \<in> set b. is_space c)"
proof -
  let ?a = "takeWhile is_space s"
  let ?r = "dropWhile is_space s"
  let ?b = "rev (takeWhile is_space (rev ?r))"
  have "?r = strip s @ ?b" unfolding strip_def
    by (metis rev_append rev_rev_ident takeWhile_dropWhile_id)
  then have "s = ?a @ strip s @ ?b" by (metis takeWhile_dropWhile_id)
  moreover have "\<forall>c \<in> set ?a. is_space c" by (auto dest: set_takeWhileD)
  moreover have "\<forall>c \<in> set ?b. is_space c" by (auto dest: set_takeWhileD)
  ultimately show ?thesis by blast
qed

lemma format_url_bounds:
  "\<not> is_space (hd (format_url u)) \<and> \<not> is_space (last (format_url u)) \<and> format_url u \<noteq> []"
proof -
  have ns: "\<not> is_space CHR ''h''" "\<not> is_space CHR ''/''" by (simp_all add: is_space_def)
  show ?thesis
  proof (cases "startswith (strip u) ''http://'' \<or> startswith (strip u) ''https://''")
    case True
    then have ne: "strip u \<noteq> []" by (auto simp: startswith_def)
    with strip_bounds [of u] True ns show ?thesis by (simp add: format_url_def Let_def)
  next
    case False
    then have f: "format_url u = ''https://'' @ strip u" by (simp add: format_url_def Let_def)
    show ?thesis
    proof (cases "strip u = []")
      case True with f ns show ?thesis by simp
    next
      case False
      with strip_bounds [of u] f ns show ?thesis by simp
    qed
  qed
qed

lemma format_url_startswith:
  "startswith (format_url u) ''http://'' \<or> startswith (format_url u) ''https://''"
  by (simp add: format_url_def Let_def startswith_def)

lemma format_url_idem: "format_url (format_url u) = format_url u"
proof -
  have "strip (format_url u) = format_url u" using format_url_bounds [of u] by (simp add: strip_id)
  then show ?thesis using format_url_startswith [of u]
    by (simp add: format_url_def [of "format_url u"] Let_def)
qed

section \<open>Helper lemmas: the allocation loops\<close>

lemma take_pages_eq:
  "take_pages k ps i acc = (acc @ take k (drop i ps), i + length (take k (drop i ps)))"
proof (induction k arbitrary: i acc)
  case 0
  then show ?case by simp
next
  case (Suc k)
  show ?case
  proof (cases "i < length ps")
    case True
    then have "drop i ps = ps ! i # drop (Suc i) ps" by (simp add: Cons_nth_drop_Suc)
    then show ?thesis using True Suc.IH [of "Suc i" "acc @ [ps ! i]"] by simp
  next
    case False
    then show ?thesis by simp
  qed
qed

lemma next_block:
  fixes ps :: "'a list"
  shows "take c (drop (i + length (take c (drop i ps)) + m) ps) = take c (drop (i + c + m) ps)"
proof (cases "i + c \<le> length ps")
  case True
  then show ?thesis by (simp add: min_def)
next
  case False
  then have "length ps \<le> i + length (take c (drop i ps)) + m" by (simp add: min_def)
  moreover from False have "length ps \<le> i + c + m" by simp
  ultimately show ?thesis by simp
qed

lemma cells_fold:
  "foldl (cell_step ps cols) (calls, vs, g) [0..<n] =
     (calls @ map (\<lambda>p. SetUrl (format_url (url p))) (take n ps),
      vs @ map (\<lambda>p. setUrl QWebEngineView (format_url (url p))) (take n ps),
      g @ map (\<lambda>i. (int i div cols, int i mod cols,
                    if i < length ps
                    then Container (title (ps ! i)) (setUrl QWebEngineView (format_url (url (ps ! i))))
                    else NoSignalWidget)) [0..<n])"
proof (induction n)
  case 0
  then show ?case by simp
next
  case (Suc n)
  show ?case
  proof (cases "n < length ps")
    case True
    then show ?thesis using Suc
      by (simp add: cell_step_def Let_def take_Suc_conv_app_nth)
  next
    case False
    then show ?thesis using Suc
      by (simp add: cell_step_def Let_def)
  qed
qed


lemma screens_loop_eq:
  assumes pos: "0 < slots_per_screen self"
  shows "screens_loop self scrs i (calls, wins) =
     (calls @ concat (map (\<lambda>k. fst (MultiScreenWindow_init
          (take (nat (slots_per_screen self)) (drop (i + k * nat (slots_per_screen self)) (pages self)))
          (refresh_interval self) (geometry_x (scrs ! k)) (geometry_y (scrs ! k))
          (geometry_width (scrs ! k)) (geometry_height (scrs ! k)) (slots_per_screen self)))
        [0..<length scrs]),
      wins @ map (\<lambda>k. MultiW (snd (MultiScreenWindow_init
          (take (nat (slots_per_screen self)) (drop (i + k * nat (slots_per_screen self)) (pages self)))
          (refresh_interval self) (geometry_x (scrs ! k)) (geometry_y (scrs ! k))
          (geometry_width (scrs ! k)) (geometry_height (scrs ! k)) (slots_per_screen self))))
        [0..<length scrs])"
proof (induction scrs arbitrary: i calls wins)
  case Nil
  then show ?case by simp
next
  case (Cons scr rest)
  define c where "c = nat (slots_per_screen self)"
  define i' where "i' = i + length (take c (drop i (pages self)))"
  obtain cs w where init: "MultiScreenWindow_init (take c (drop i (pages self)))
      (refresh_interval self) (geometry_x scr) (geometry_y scr)
      (geometry_width scr) (geometry_height scr) (slots_per_screen self) = (cs, w)"
    by (cases "MultiScreenWindow_init (take c (drop i (pages self)))
      (refresh_interval self) (geometry_x scr) (geometry_y scr)
      (geometry_width scr) (geometry_height scr) (slots_per_screen self)") 
  have step: "screens_loop self (scr # rest) i (calls, wins) =
      screens_loop self rest i' (calls @ cs, wins @ [MultiW w])"
    using pos init by (simp add: take_pages_eq c_def [symmetric] i'_def)
  have blk: "\<And>k. take c (drop (i' + k * c) (pages self)) = take c (drop (i + Suc k * c) (pages self))"
    unfolding i'_def using next_block [of c i "pages self"] by (simp add: add.assoc)
  show ?case
    unfolding step Cons.IH [of i' "calls @ cs" "wins @ [MultiW w]"]
    by (simp add: map_upt_Suc c_def [symmetric] blk init del: upt_Suc)
qed

lemma MultiScreenWindow_init_eq:
  "MultiScreenWindow_init ps interval x y width height slots =
     (map (\<lambda>p. SetUrl (format_url (url p)))
        (take (nat (fst (get_grid_for_slots slots) * snd (get_grid_for_slots slots))) ps),
      \<lparr>mw_geometry = (x, y, width, height), mw_pages = ps,
       mw_refresh_interval = interval, mw_slots_per_screen = slots,
       grid = map (\<lambda>i. (int i div snd (get_grid_for_slots slots),
                        int i mod snd (get_grid_for_slots slots),
                    if i < length ps
                    then Container (title (ps ! i)) (setUrl QWebEngineView (format_url (url (ps ! i))))
                    else NoSignalWidget))
                [0..<nat (fst (get_grid_for_slots slots) * snd (get_grid_for_slots slots))],
       views = map (\<lambda>p. setUrl QWebEngineView (format_url (url p)))
                (take (nat (fst (get_grid_for_slots slots) * snd (get_grid_for_slots slots))) ps),
       mw_visible = False\<rparr>)"
  by (simp add: MultiScreenWindow_init_def cells_fold split_beta Let_def)

lemma apply_mode_multi:
  assumes multi: "mode self \<noteq> ''single''" and pos: "0 < slots_per_screen self"
  shows "apply_mode scrs self =
     Inr (concat (map (\<lambda>k. fst (MultiScreenWindow_init
          (take (nat (slots_per_screen self)) (drop (k * nat (slots_per_screen self)) (pages self)))
          (refresh_interval self) (geometry_x (scrs ! k)) (geometry_y (scrs ! k))
          (geometry_width (scrs ! k)) (geometry_height (scrs ! k)) (slots_per_screen self)))
        [0..<length scrs]),
      self\<lparr>windows := map (\<lambda>k. show_window (MultiW (snd (MultiScreenWindow_init
          (take (nat (slots_per_screen self)) (drop (k * nat (slots_per_screen self)) (pages self)))
          (refresh_interval self) (geometry_x (scrs ! k)) (geometry_y (scrs ! k))
          (geometry_width (scrs ! k)) (geometry_height (scrs ! k)) (slots_per_screen self)))))
        [0..<length scrs]\<rparr>)"
  using multi by (simp add: apply_mode_def screens_loop_eq [OF pos] comp_def)

section \<open>URL normalisation\<close>

text \<open>
  C8. URL normalisation first trims leading and trailing whitespace (the input is the
  trimmed string between two runs of whitespace, and the trimmed string neither begins
  nor ends with whitespace), then prepends "https://" exactly when the trimmed string
  does not already start with "http://" or "https://". It is idempotent: normalising a
  normalised URL changes nothing. In particular "example.com" becomes
  "https://example.com" and "http://x" stays "http://x".
\<close>

theorem format_url_trim_prepend_idempotent:
  "format_url (format_url u) = format_url u
   \<and> format_url ''example.com'' = ''https://example.com''
   \<and> format_url ''http://x'' = ''http://x''
   \<and> (\<exists>a b. u = a @ strip u @ b \<and> (\<forall>c \<in> set a. is_space c) \<and> (\<forall>c \<in> set b. is_space c))
   \<and> (strip u = [] \<or> (\<not> is_space (hd (strip u)) \<and> \<not> is_space (last (strip u))))
   \<and> (startswith (strip u) ''http://'' \<or> startswith (strip u) ''https://''
        \<longrightarrow> format_url u = strip u)
   \<and> (\<not> (startswith (strip u) ''http://'' \<or> startswith (strip u) ''https://'')
        \<longrightarrow> format_url u = ''https://'' @ strip u)"
proof -
  have ex1: "format_url ''example.com'' = ''https://example.com''"
    by (simp add: format_url_def strip_def startswith_def is_space_def)
  have ex2: "format_url ''http://x'' = ''http://x''"
    by (simp add: format_url_def strip_def startswith_def is_space_def)
  have yes: "startswith (strip u) ''http://'' \<or> startswith (strip u) ''https://''
        \<longrightarrow> format_url u = strip u"
    by (simp add: format_url_def Let_def)
  have no: "\<not> (startswith (strip u) ''http://'' \<or> startswith (strip u) ''https://'')
        \<longrightarrow> format_url u = ''https://'' @ strip u"
    by (simp add: format_url_def Let_def)
  from format_url_idem [of u] ex1 ex2 strip_decomp [of u] strip_bounds [of u] yes no
  show ?thesis by blast
qed

theorem format_url_trim_prepend_idempotent_witness:
  "format_url (format_url ''  example.com/a b '') = ''https://example.com/a b''
   \<and> strip ''  example.com/a b '' = ''example.com/a b''
   \<and> \<not> startswith (strip ''  example.com/a b '') ''http://''
   \<and> format_url ''  example.com/a b '' = ''https://'' @ strip ''  example.com/a b ''
   \<and> startswith (strip '' https://y '') ''https://''
   \<and> format_url '' https://y '' = strip '' https://y ''"
proof -
  have s: "strip ''  example.com/a b '' = ''example.com/a b''"
    by (simp add: strip_def is_space_def)
  have n: "\<not> (startswith (strip ''  example.com/a b '') ''http://''
            \<or> startswith (strip ''  example.com/a b '') ''https://'')"
    by (simp add: s startswith_def)
  have y: "startswith (strip '' https://y '') ''http://''
            \<or> startswith (strip '' https://y '') ''https://''"
    by (simp add: strip_def is_space_def startswith_def)
  from format_url_trim_prepend_idempotent [of "''  example.com/a b ''"] n
  have 1: "format_url ''  example.com/a b '' = ''https://'' @ strip ''  example.com/a b ''"
    and 2: "format_url (format_url ''  example.com/a b '') = format_url ''  example.com/a b ''"
    by blast+
  from format_url_trim_prepend_idempotent [of "'' https://y ''"] y
  have 3: "format_url '' https://y '' = strip '' https://y ''" by blast
  from y have 4: "startswith (strip '' https://y '') ''https://''"
    by (simp add: strip_def is_space_def startswith_def)
  from 1 2 3 4 s n show ?thesis by simp
qed

section \<open>Allocation of pages to monitors\<close>

lemma concat_blocks:
  "concat (map (\<lambda>k. take c (drop (k * c) ps)) [0..<m]) = take (m * c) ps"
proof (induction m)
  case 0
  then show ?case by simp
next
  case (Suc m)
  have "take (m * c + c) ps = take (m * c) ps @ take c (drop (m * c) ps)"
    by (rule take_add)
  then show ?case using Suc by (simp add: add.commute)
qed

lemma windows_of_apply_mode_multi:
  assumes multi: "mode self \<noteq> ''single''" and pos: "0 < slots_per_screen self"
  shows "\<exists>calls self'. apply_mode scrs self = Inr (calls, self')
           \<and> length (windows self') = length scrs
           \<and> (\<forall>k<length scrs. windows self' ! k =
                 show_window (MultiW (snd (MultiScreenWindow_init
                   (take (nat (slots_per_screen self))
                      (drop (k * nat (slots_per_screen self)) (pages self)))
                   (refresh_interval self) (geometry_x (scrs ! k)) (geometry_y (scrs ! k))
                   (geometry_width (scrs ! k)) (geometry_height (scrs ! k))
                   (slots_per_screen self)))))"
  by (simp add: apply_mode_multi [OF multi pos])

text \<open>
  C1. In multi mode (with at least one slot per screen) the pages go to the monitors in
  contiguous blocks, in the order of the screen list. One pass of the inner loop, started
  at any cursor, takes the next up to \<open>slots_per_screen\<close> pages from the cursor and
  advances the cursor by the number taken. So \<open>apply_mode\<close> returns without error with
  one window per screen, window \<open>k\<close> holds the pages
  \<open>k * slots_per_screen ..< (k + 1) * slots_per_screen\<close> of the page list (as far as they
  exist), and all windows together hold the first \<open>monitors * slots_per_screen\<close> pages:
  the pages beyond are in no window. With 3 monitors, 2 slots per screen and the pages
  a, b, c, d, e the windows show [a, b], [c, d] and [e, No Signal].
\<close>

theorem apply_mode_multi_contiguous_blocks:
  assumes multi: "mode self \<noteq> ''single''" and slots: "1 \<le> slots_per_screen self"
  shows
   "take_pages (nat (slots_per_screen self)) (pages self) cursor [] =
      (take (nat (slots_per_screen self)) (drop cursor (pages self)),
       cursor + length (take (nat (slots_per_screen self)) (drop cursor (pages self))))
    \<and> (\<exists>calls self'. apply_mode scrs self = Inr (calls, self')
          \<and> length (windows self') = length scrs
          \<and> (\<forall>k<length scrs. \<exists>w. windows self' ! k = MultiW w
                \<and> mw_pages w = take (nat (slots_per_screen self))
                                  (drop (k * nat (slots_per_screen self)) (pages self))
                \<and> mw_geometry w = (geometry_x (scrs ! k), geometry_y (scrs ! k),
                                    geometry_width (scrs ! k), geometry_height (scrs ! k)))
          \<and> concat (map (\<lambda>win. case win of MultiW w \<Rightarrow> mw_pages w | SingleW w \<Rightarrow> [])
                      (windows self'))
              = take (length scrs * nat (slots_per_screen self)) (pages self))
    \<and> apply_mode [s0, s1, s2]
        \<lparr>mode = ''multi'', pages = [a, b, c, d, e], refresh_interval = ri,
         slots_per_screen = 2, windows = ws\<rparr>
      = Inr (map (\<lambda>p. SetUrl (format_url (url p))) [a, b, c, d, e],
          \<lparr>mode = ''multi'', pages = [a, b, c, d, e], refresh_interval = ri,
           slots_per_screen = 2,
           windows =
             [MultiW \<lparr>mw_geometry = (geometry_x s0, geometry_y s0, geometry_width s0, geometry_height s0),
                      mw_pages = [a, b], mw_refresh_interval = ri, mw_slots_per_screen = 2,
                      grid = [(0, 0, Container (title a) \<lparr>view_url = format_url (url a)\<rparr>),
                              (0, 1, Container (title b) \<lparr>view_url = format_url (url b)\<rparr>)],
                      views = [\<lparr>view_url = format_url (url a)\<rparr>, \<lparr>view_url = format_url (url b)\<rparr>],
                      mw_visible = True\<rparr>,
              MultiW \<lparr>mw_geometry = (geometry_x s1, geometry_y s1, geometry_width s1, geometry_height s1),
                      mw_pages = [c, d], mw_refresh_interval = ri, mw_slots_per_screen = 2,
                      grid = [(0, 0, Container (title c) \<lparr>view_url = format_url (url c)\<rparr>),
                              (0, 1, Container (title d) \<lparr>view_url = format_url (url d)\<rparr>)],
                      views = [\<lparr>view_url = format_url (url c)\<rparr>, \<lparr>view_url = format_url (url d)\<rparr>],
                      mw_visible = True\<rparr>,
              MultiW \<lparr>mw_geometry = (geometry_x s2, geometry_y s2, geometry_width s2, geometry_height s2),
                      mw_pages = [e], mw_refresh_interval = ri, mw_slots_per_screen = 2,
                      grid = [(0, 0, Container (title e) \<lparr>view_url = format_url (url e)\<rparr>),
                              (0, 1, NoSignalWidget)],
                      views = [\<lparr>view_url = format_url (url e)\<rparr>],
                      mw_visible = True\<rparr>]\<rparr>)"
proof (intro conjI)
  show "take_pages (nat (slots_per_screen self)) (pages self) cursor [] =
      (take (nat (slots_per_screen self)) (drop cursor (pages self)),
       cursor + length (take (nat (slots_per_screen self)) (drop cursor (pages self))))"
    by (simp add: take_pages_eq)
next
  from slots have pos: "0 < slots_per_screen self" by simp
  let ?c = "nat (slots_per_screen self)"
  let ?W = "\<lambda>k. snd (MultiScreenWindow_init (take ?c (drop (k * ?c) (pages self)))
                   (refresh_interval self) (geometry_x (scrs ! k)) (geometry_y (scrs ! k))
                   (geometry_width (scrs ! k)) (geometry_height (scrs ! k))
                   (slots_per_screen self))"
  from windows_of_apply_mode_multi [OF multi pos, of scrs]
  obtain calls self' where ap: "apply_mode scrs self = Inr (calls, self')"
    and len: "length (windows self') = length scrs"
    and win: "\<forall>k<length scrs. windows self' ! k = show_window (MultiW (?W k))"
    by blast
  have each: "\<forall>k<length scrs. \<exists>w. windows self' ! k = MultiW w
                \<and> mw_pages w = take ?c (drop (k * ?c) (pages self))
                \<and> mw_geometry w = (geometry_x (scrs ! k), geometry_y (scrs ! k),
                                    geometry_width (scrs ! k), geometry_height (scrs ! k))"
    using win by (simp add: show_window_def MultiScreenWindow_init_eq)
  have "windows self' = map (\<lambda>k. show_window (MultiW (?W k))) [0..<length scrs]"
    using len win by (intro nth_equalityI) simp_all
  then have "concat (map (\<lambda>win. case win of MultiW w \<Rightarrow> mw_pages w | SingleW w \<Rightarrow> [])
                      (windows self'))
             = concat (map (\<lambda>k. take ?c (drop (k * ?c) (pages self))) [0..<length scrs])"
    by (simp add: comp_def show_window_def MultiScreenWindow_init_eq)
  then have all: "concat (map (\<lambda>win. case win of MultiW w \<Rightarrow> mw_pages w | SingleW w \<Rightarrow> [])
                      (windows self'))
             = take (length scrs * ?c) (pages self)"
    by (simp add: concat_blocks)
  from ap len each all
  show "\<exists>calls self'. apply_mode scrs self = Inr (calls, self')
          \<and> length (windows self') = length scrs
          \<and> (\<forall>k<length scrs. \<exists>w. windows self' ! k = MultiW w
                \<and> mw_pages w = take ?c (drop (k * ?c) (pages self))
                \<and> mw_geometry w = (geometry_x (scrs ! k), geometry_y (scrs ! k),
                                    geometry_width (scrs ! k), geometry_height (scrs ! k)))
          \<and> concat (map (\<lambda>win. case win of MultiW w \<Rightarrow> mw_pages w | SingleW w \<Rightarrow> [])
                      (windows self'))
              = take (length scrs * ?c) (pages self)"
    by blast
next
  show "apply_mode [s0, s1, s2]
        \<lparr>mode = ''multi'', pages = [a, b, c, d, e], refresh_interval = ri,
         slots_per_screen = 2, windows = ws\<rparr>
      = Inr (map (\<lambda>p. SetUrl (format_url (url p))) [a, b, c, d, e],
          \<lparr>mode = ''multi'', pages = [a, b, c, d, e], refresh_interval = ri,
           slots_per_screen = 2,
           windows =
             [MultiW \<lparr>mw_geometry = (geometry_x s0, geometry_y s0, geometry_width s0, geometry_height s0),
                      mw_pages = [a, b], mw_refresh_interval = ri, mw_slots_per_screen = 2,
                      grid = [(0, 0, Container (title a) \<lparr>view_url = format_url (url a)\<rparr>),
                              (0, 1, Container (title b) \<lparr>view_url = format_url (url b)\<rparr>)],
                      views = [\<lparr>view_url = format_url (url a)\<rparr>, \<lparr>view_url = format_url (url b)\<rparr>],
                      mw_visible = True\<rparr>,
              MultiW \<lparr>mw_geometry = (geometry_x s1, geometry_y s1, geometry_width s1, geometry_height s1),
                      mw_pages = [c, d], mw_refresh_interval = ri, mw_slots_per_screen = 2,
                      grid = [(0, 0, Container (title c) \<lparr>view_url = format_url (url c)\<rparr>),
                              (0, 1, Container (title d) \<lparr>view_url = format_url (url d)\<rparr>)],
                      views = [\<lparr>view_url = format_url (url c)\<rparr>, \<lparr>view_url = format_url (url d)\<rparr>],
                      mw_visible = True\<rparr>,
              MultiW \<lparr>mw_geometry = (geometry_x s2, geometry_y s2, geometry_width s2, geometry_height s2),
                      mw_pages = [e], mw_refresh_interval = ri, mw_slots_per_screen = 2,
                      grid = [(0, 0, Container (title e) \<lparr>view_url = format_url (url e)\<rparr>),
                              (0, 1, NoSignalWidget)],
                      views = [\<lparr>view_url = format_url (url e)\<rparr>],
                      mw_visible = True\<rparr>]\<rparr>)"
    by (simp add: apply_mode_def take_pages_eq MultiScreenWindow_init_eq get_grid_for_slots_def
        show_window_def setUrl_def QWebEngineView_def upt_rec)
qed

theorem apply_mode_multi_contiguous_blocks_witness:
  "\<exists>calls self'.
     apply_mode
       [\<lparr>geometry_x = 0, geometry_y = 0, geometry_width = 1920, geometry_height = 1080\<rparr>,
        \<lparr>geometry_x = 1920, geometry_y = 0, geometry_width = 1920, geometry_height = 1080\<rparr>,
        \<lparr>geometry_x = 3840, geometry_y = 0, geometry_width = 1920, geometry_height = 1080\<rparr>]
       \<lparr>mode = ''multi'',
        pages = [\<lparr>title = ''A'', url = ''a.org''\<rparr>, \<lparr>title = ''B'', url = ''b.org''\<rparr>,
                 \<lparr>title = ''C'', url = ''c.org''\<rparr>, \<lparr>title = ''D'', url = ''d.org''\<rparr>,
                 \<lparr>title = ''E'', url = ''e.org''\<rparr>, \<lparr>title = ''F'', url = ''f.org''\<rparr>,
                 \<lparr>title = ''G'', url = ''g.org''\<rparr>],
        refresh_interval = 5000, slots_per_screen = 2, windows = []\<rparr>
       = Inr (calls, self')
     \<and> length (windows self') = 3
     \<and> (\<exists>w. windows self' ! 1 = MultiW w
            \<and> mw_pages w = [\<lparr>title = ''C'', url = ''c.org''\<rparr>, \<lparr>title = ''D'', url = ''d.org''\<rparr>]
            \<and> mw_geometry w = (1920, 0, 1920, 1080))
     \<and> concat (map (\<lambda>win. case win of MultiW w \<Rightarrow> mw_pages w | SingleW w \<Rightarrow> [])
                 (windows self'))
        = [\<lparr>title = ''A'', url = ''a.org''\<rparr>, \<lparr>title = ''B'', url = ''b.org''\<rparr>,
           \<lparr>title = ''C'', url = ''c.org''\<rparr>, \<lparr>title = ''D'', url = ''d.org''\<rparr>,
           \<lparr>title = ''E'', url = ''e.org''\<rparr>, \<lparr>title = ''F'', url = ''f.org''\<rparr>]"
proof -
  let ?scrs = "[\<lparr>geometry_x = 0, geometry_y = 0, geometry_width = 1920, geometry_height = 1080\<rparr>,
        \<lparr>geometry_x = 1920, geometry_y = 0, geometry_width = 1920, geometry_height = 1080\<rparr>,
        \<lparr>geometry_x = 3840, geometry_y = 0, geometry_width = 1920, geometry_height = 1080\<rparr>]"
  let ?ctl = "\<lparr>mode = ''multi'',
        pages = [\<lparr>title = ''A'', url = ''a.org''\<rparr>, \<lparr>title = ''B'', url = ''b.org''\<rparr>,
                 \<lparr>title = ''C'', url = ''c.org''\<rparr>, \<lparr>title = ''D'', url = ''d.org''\<rparr>,
                 \<lparr>title = ''E'', url = ''e.org''\<rparr>, \<lparr>title = ''F'', url = ''f.org''\<rparr>,
                 \<lparr>title = ''G'', url = ''g.org''\<rparr>],
        refresh_interval = 5000, slots_per_screen = 2, windows = []\<rparr>"
  have m: "mode ?ctl \<noteq> ''single''" by simp
  have s: "1 \<le> slots_per_screen ?ctl" by simp
  from apply_mode_multi_contiguous_blocks [OF m s, of _ ?scrs]
  obtain calls self' where ap: "apply_mode ?scrs ?ctl = Inr (calls, self')"
    and len: "length (windows self') = length ?scrs"
    and each: "\<forall>k<length ?scrs. \<exists>w. windows self' ! k = MultiW w
                \<and> mw_pages w = take (nat (slots_per_screen ?ctl))
                                  (drop (k * nat (slots_per_screen ?ctl)) (pages ?ctl))
                \<and> mw_geometry w = (geometry_x (?scrs ! k), geometry_y (?scrs ! k),
                                    geometry_width (?scrs ! k), geometry_height (?scrs ! k))"
    and all: "concat (map (\<lambda>win. case win of MultiW w \<Rightarrow> mw_pages w | SingleW w \<Rightarrow> [])
                      (windows self'))
              = take (length ?scrs * nat (slots_per_screen ?ctl)) (pages ?ctl)"
    by blast
  from spec [OF each, of 1] have one: "\<exists>w. windows self' ! 1 = MultiW w
            \<and> mw_pages w = [\<lparr>title = ''C'', url = ''c.org''\<rparr>, \<lparr>title = ''D'', url = ''d.org''\<rparr>]
            \<and> mw_geometry w = (1920, 0, 1920, 1080)"
    by simp
  from all have all': "concat (map (\<lambda>win. case win of MultiW w \<Rightarrow> mw_pages w | SingleW w \<Rightarrow> [])
                 (windows self'))
        = [\<lparr>title = ''A'', url = ''a.org''\<rparr>, \<lparr>title = ''B'', url = ''b.org''\<rparr>,
           \<lparr>title = ''C'', url = ''c.org''\<rparr>, \<lparr>title = ''D'', url = ''d.org''\<rparr>,
           \<lparr>title = ''E'', url = ''e.org''\<rparr>, \<lparr>title = ''F'', url = ''f.org''\<rparr>]"
    by simp
  from len have len': "length (windows self') = 3" by simp
  from ap len' one all' show ?thesis by blast
qed

section \<open>Cells of a multi-screen window\<close>

lemma cells_split:
  "map (\<lambda>i. if i < length xs then f (xs ! i) else d) [0..<n]
     = map f (take n xs) @ replicate (n - length xs) d"
  by (rule nth_equalityI) (auto simp: nth_append min_def)

lemma grid_widgets:
  "map (snd \<circ> snd) (grid (snd (MultiScreenWindow_init ps interval x y width height slots)))
     = map (\<lambda>p. Container (title p) \<lparr>view_url = format_url (url p)\<rparr>)
         (take (nat (fst (get_grid_for_slots slots) * snd (get_grid_for_slots slots))) ps)
       @ replicate (nat (fst (get_grid_for_slots slots) * snd (get_grid_for_slots slots)) - length ps)
           NoSignalWidget"
proof -
  let ?n = "nat (fst (get_grid_for_slots slots) * snd (get_grid_for_slots slots))"
  have "map (snd \<circ> snd) (grid (snd (MultiScreenWindow_init ps interval x y width height slots)))
        = map (\<lambda>i. if i < length ps
                    then (\<lambda>p. Container (title p) \<lparr>view_url = format_url (url p)\<rparr>) (ps ! i)
                    else NoSignalWidget) [0..<?n]"
    by (simp add: MultiScreenWindow_init_eq comp_def setUrl_def QWebEngineView_def if_distrib)
  then show ?thesis
    using cells_split [of ps "\<lambda>p. Container (title p) \<lparr>view_url = format_url (url p)\<rparr>"
                          NoSignalWidget ?n]
    by simp
qed

lemma grid_length:
  "length (grid (snd (MultiScreenWindow_init ps interval x y width height slots)))
     = nat (fst (get_grid_for_slots slots) * snd (get_grid_for_slots slots))"
  by (simp add: MultiScreenWindow_init_eq)

lemma cells_large: "16 < slots \<Longrightarrow> nat (fst (get_grid_for_slots slots) * snd (get_grid_for_slots slots)) = 16"
  by (simp add: get_grid_for_slots_def)

lemma block_offsets:
  fixes c :: nat
  assumes "t < c" "j < c" "k' * c + t = k * c + j"
  shows "k' = k \<and> t = j"
proof -
  have "(k' * c + t) div c = k'" "(k * c + j) div c = k" using assms(1,2) by simp_all
  then have "k' = k" using assms(3) by metis
  then show ?thesis using assms(3) by simp
qed


text \<open>
  C6. In multi mode (with at least one slot per screen), when the page cursor is exhausted
  at monitor \<open>k\<close>, that is, the \<open>k\<close> monitors before it already took every page, a window
  is still created and shown for monitor \<open>k\<close> and for every later monitor; it holds no
  page and no view, and every one of its rows * cols grid cells is the "No Signal"
  widget. With an empty page list no renderer call is made at all. With 2 monitors,
  2 slots per screen and no pages, both windows show two "No Signal" cells and the
  list of renderer calls is empty.
\<close>

theorem apply_mode_multi_exhausted_no_signal:
  assumes multi: "mode self \<noteq> ''single''" and slots: "1 \<le> slots_per_screen self"
    and exhausted: "length (pages self) \<le> k * nat (slots_per_screen self)"
  shows
   "(\<exists>calls self'. apply_mode scrs self = Inr (calls, self')
        \<and> length (windows self') = length scrs
        \<and> (pages self = [] \<longrightarrow> calls = [])
        \<and> (\<forall>j. k \<le> j \<and> j < length scrs \<longrightarrow>
              (\<exists>w. windows self' ! j = MultiW w
                 \<and> mw_pages w = [] \<and> views w = [] \<and> mw_visible w
                 \<and> mw_geometry w = (geometry_x (scrs ! j), geometry_y (scrs ! j),
                                     geometry_width (scrs ! j), geometry_height (scrs ! j))
                 \<and> map (snd \<circ> snd) (grid w)
                    = replicate (nat (fst (get_grid_for_slots (slots_per_screen self))
                                      * snd (get_grid_for_slots (slots_per_screen self))))
                        NoSignalWidget)))
    \<and> apply_mode [s0, s1]
        \<lparr>mode = ''multi'', pages = [], refresh_interval = ri, slots_per_screen = 2, windows = ws\<rparr>
      = Inr ([],
          \<lparr>mode = ''multi'', pages = [], refresh_interval = ri, slots_per_screen = 2,
           windows =
             [MultiW \<lparr>mw_geometry = (geometry_x s0, geometry_y s0, geometry_width s0, geometry_height s0),
                      mw_pages = [], mw_refresh_interval = ri, mw_slots_per_screen = 2,
                      grid = [(0, 0, NoSignalWidget), (0, 1, NoSignalWidget)],
                      views = [], mw_visible = True\<rparr>,
              MultiW \<lparr>mw_geometry = (geometry_x s1, geometry_y s1, geometry_width s1, geometry_height s1),
                      mw_pages = [], mw_refresh_interval = ri, mw_slots_per_screen = 2,
                      grid = [(0, 0, NoSignalWidget), (0, 1, NoSignalWidget)],
                      views = [], mw_visible = True\<rparr>]\<rparr>)"
proof (intro conjI)
  from slots have pos: "0 < slots_per_screen self" by simp
  let ?c = "nat (slots_per_screen self)"
  let ?n = "nat (fst (get_grid_for_slots (slots_per_screen self))
                 * snd (get_grid_for_slots (slots_per_screen self)))"
  let ?I = "\<lambda>j. MultiScreenWindow_init (take ?c (drop (j * ?c) (pages self)))
                   (refresh_interval self) (geometry_x (scrs ! j)) (geometry_y (scrs ! j))
                   (geometry_width (scrs ! j)) (geometry_height (scrs ! j))
                   (slots_per_screen self)"
  define calls where "calls = concat (map (\<lambda>j. fst (?I j)) [0..<length scrs])"
  define self' where
    "self' = self\<lparr>windows := map (\<lambda>j. show_window (MultiW (snd (?I j)))) [0..<length scrs]\<rparr>"
  have ap: "apply_mode scrs self = Inr (calls, self')"
    unfolding calls_def self'_def by (rule apply_mode_multi [OF multi pos])
  have len: "length (windows self') = length scrs" by (simp add: self'_def)
  have nocall: "pages self = [] \<longrightarrow> calls = []"
    by (simp add: calls_def MultiScreenWindow_init_eq)
  have later: "\<forall>j. k \<le> j \<and> j < length scrs \<longrightarrow>
              (\<exists>w. windows self' ! j = MultiW w
                 \<and> mw_pages w = [] \<and> views w = [] \<and> mw_visible w
                 \<and> mw_geometry w = (geometry_x (scrs ! j), geometry_y (scrs ! j),
                                     geometry_width (scrs ! j), geometry_height (scrs ! j))
                 \<and> map (snd \<circ> snd) (grid w) = replicate ?n NoSignalWidget)"
  proof (intro allI impI)
    fix j assume j: "k \<le> j \<and> j < length scrs"
    then have "k * ?c \<le> j * ?c" by (simp add: mult_le_mono1)
    with exhausted have "length (pages self) \<le> j * ?c" by (rule le_trans)
    then have empty: "drop (j * ?c) (pages self) = []" by simp
    let ?w = "(snd (?I j))\<lparr>mw_visible := True\<rparr>"
    have at: "windows self' ! j = MultiW ?w"
      using j by (simp add: self'_def show_window_def)
    have g: "map (snd \<circ> snd) (grid ?w) = replicate ?n NoSignalWidget"
      using grid_widgets [of "[]" "refresh_interval self" "geometry_x (scrs ! j)"
          "geometry_y (scrs ! j)" "geometry_width (scrs ! j)" "geometry_height (scrs ! j)"
          "slots_per_screen self"]
      by (simp add: empty)
    have f: "mw_pages ?w = [] \<and> views ?w = [] \<and> mw_visible ?w
          \<and> mw_geometry ?w = (geometry_x (scrs ! j), geometry_y (scrs ! j),
                                     geometry_width (scrs ! j), geometry_height (scrs ! j))"
      by (simp add: empty MultiScreenWindow_init_eq)
    from at g f
    show "\<exists>w. windows self' ! j = MultiW w
                 \<and> mw_pages w = [] \<and> views w = [] \<and> mw_visible w
                 \<and> mw_geometry w = (geometry_x (scrs ! j), geometry_y (scrs ! j),
                                     geometry_width (scrs ! j), geometry_height (scrs ! j))
                 \<and> map (snd \<circ> snd) (grid w) = replicate ?n NoSignalWidget"
      by blast
  qed
  from ap len nocall later
  show "\<exists>calls self'. apply_mode scrs self = Inr (calls, self')
        \<and> length (windows self') = length scrs
        \<and> (pages self = [] \<longrightarrow> calls = [])
        \<and> (\<forall>j. k \<le> j \<and> j < length scrs \<longrightarrow>
              (\<exists>w. windows self' ! j = MultiW w
                 \<and> mw_pages w = [] \<and> views w = [] \<and> mw_visible w
                 \<and> mw_geometry w = (geometry_x (scrs ! j), geometry_y (scrs ! j),
                                     geometry_width (scrs ! j), geometry_height (scrs ! j))
                 \<and> map (snd \<circ> snd) (grid w) = replicate ?n NoSignalWidget))"
    by blast
next
  show "apply_mode [s0, s1]
        \<lparr>mode = ''multi'', pages = [], refresh_interval = ri, slots_per_screen = 2, windows = ws\<rparr>
      = Inr ([],
          \<lparr>mode = ''multi'', pages = [], refresh_interval = ri, slots_per_screen = 2,
           windows =
             [MultiW \<lparr>mw_geometry = (geometry_x s0, geometry_y s0, geometry_width s0, geometry_height s0),
                      mw_pages = [], mw_refresh_interval = ri, mw_slots_per_screen = 2,
                      grid = [(0, 0, NoSignalWidget), (0, 1, NoSignalWidget)],
                      views = [], mw_visible = True\<rparr>,
              MultiW \<lparr>mw_geometry = (geometry_x s1, geometry_y s1, geometry_width s1, geometry_height s1),
                      mw_pages = [], mw_refresh_interval = ri, mw_slots_per_screen = 2,
                      grid = [(0, 0, NoSignalWidget), (0, 1, NoSignalWidget)],
                      views = [], mw_visible = True\<rparr>]\<rparr>)"
    by (simp add: apply_mode_def take_pages_eq MultiScreenWindow_init_eq get_grid_for_slots_def
        show_window_def upt_rec)
qed

theorem apply_mode_multi_exhausted_no_signal_witness:
  "\<exists>calls self'.
     apply_mode
       [\<lparr>geometry_x = 0, geometry_y = 0, geometry_width = 1920, geometry_height = 1080\<rparr>,
        \<lparr>geometry_x = 1920, geometry_y = 0, geometry_width = 1920, geometry_height = 1080\<rparr>,
        \<lparr>geometry_x = 3840, geometry_y = 0, geometry_width = 1920, geometry_height = 1080\<rparr>]
       \<lparr>mode = ''multi'',
        pages = [\<lparr>title = ''A'', url = ''a.org''\<rparr>, \<lparr>title = ''B'', url = ''b.org''\<rparr>,
                 \<lparr>title = ''C'', url = ''c.org''\<rparr>],
        refresh_interval = 5000, slots_per_screen = 3, windows = []\<rparr>
       = Inr (calls, self')
     \<and> length (windows self') = 3
     \<and> (\<exists>w. windows self' ! 1 = MultiW w
            \<and> mw_pages w = [] \<and> views w = [] \<and> mw_visible w
            \<and> mw_geometry w = (1920, 0, 1920, 1080)
            \<and> map (snd \<circ> snd) (grid w)
               = [NoSignalWidget, NoSignalWidget, NoSignalWidget, NoSignalWidget])
     \<and> (\<exists>w. windows self' ! 2 = MultiW w
            \<and> mw_pages w = [] \<and> views w = [] \<and> mw_visible w
            \<and> mw_geometry w = (3840, 0, 1920, 1080)
            \<and> map (snd \<circ> snd) (grid w)
               = [NoSignalWidget, NoSignalWidget, NoSignalWidget, NoSignalWidget])"
proof -
  let ?scrs = "[\<lparr>geometry_x = 0, geometry_y = 0, geometry_width = 1920, geometry_height = 1080\<rparr>,
        \<lparr>geometry_x = 1920, geometry_y = 0, geometry_width = 1920, geometry_height = 1080\<rparr>,
        \<lparr>geometry_x = 3840, geometry_y = 0, geometry_width = 1920, geometry_height = 1080\<rparr>]"
  let ?ctl = "\<lparr>mode = ''multi'',
        pages = [\<lparr>title = ''A'', url = ''a.org''\<rparr>, \<lparr>title = ''B'', url = ''b.org''\<rparr>,
                 \<lparr>title = ''C'', url = ''c.org''\<rparr>],
        refresh_interval = 5000, slots_per_screen = 3, windows = []\<rparr>"
  have m: "mode ?ctl \<noteq> ''single''" by simp
  have s: "1 \<le> slots_per_screen ?ctl" by simp
  have e: "length (pages ?ctl) \<le> 1 * nat (slots_per_screen ?ctl)" by simp
  have n: "replicate (nat (fst (get_grid_for_slots (slots_per_screen ?ctl))
                                      * snd (get_grid_for_slots (slots_per_screen ?ctl))))
                        NoSignalWidget
           = [NoSignalWidget, NoSignalWidget, NoSignalWidget, NoSignalWidget]"
    by (simp add: get_grid_for_slots_def numeral_eq_Suc)
  from apply_mode_multi_exhausted_no_signal [OF m s e, of ?scrs]
  obtain calls self' where ap: "apply_mode ?scrs ?ctl = Inr (calls, self')"
    and len: "length (windows self') = length ?scrs"
    and later: "\<forall>j. 1 \<le> j \<and> j < length ?scrs \<longrightarrow>
              (\<exists>w. windows self' ! j = MultiW w
                 \<and> mw_pages w = [] \<and> views w = [] \<and> mw_visible w
                 \<and> mw_geometry w = (geometry_x (?scrs ! j), geometry_y (?scrs ! j),
                                     geometry_width (?scrs ! j), geometry_height (?scrs ! j))
                 \<and> map (snd \<circ> snd) (grid w)
                    = replicate (nat (fst (get_grid_for_slots (slots_per_screen ?ctl))
                                      * snd (get_grid_for_slots (slots_per_screen ?ctl))))
                        NoSignalWidget)"
    by blast
  from spec [OF later, of 1] have one: "\<exists>w. windows self' ! 1 = MultiW w
            \<and> mw_pages w = [] \<and> views w = [] \<and> mw_visible w
            \<and> mw_geometry w = (1920, 0, 1920, 1080)
            \<and> map (snd \<circ> snd) (grid w)
               = [NoSignalWidget, NoSignalWidget, NoSignalWidget, NoSignalWidget]"
    unfolding n by simp
  from spec [OF later, of 2] have two: "\<exists>w. windows self' ! 2 = MultiW w
            \<and> mw_pages w = [] \<and> views w = [] \<and> mw_visible w
            \<and> mw_geometry w = (3840, 0, 1920, 1080)
            \<and> map (snd \<circ> snd) (grid w)
               = [NoSignalWidget, NoSignalWidget, NoSignalWidget, NoSignalWidget]"
    unfolding n by simp
  from len have len': "length (windows self') = 3" by simp
  show ?thesis
    by (rule exI [of _ calls], rule exI [of _ self']) (simp only: ap len' one two simp_thms)
qed

section \<open>More than sixteen slots per screen\<close>

lemma title_not_in_block:
  fixes ps :: "page list" and c :: nat
  assumes dist: "distinct (map title ps)"
    and c: "16 < c" and j: "16 \<le> j" "j < c" and q: "k * c + j < length ps"
  shows "title (ps ! (k * c + j)) \<notin> title ` set (take 16 (drop (k' * c) ps))"
proof
  assume "title (ps ! (k * c + j)) \<in> title ` set (take 16 (drop (k' * c) ps))"
  then obtain p where p: "p \<in> set (take 16 (drop (k' * c) ps))"
    and tp: "title (ps ! (k * c + j)) = title p" by blast
  from p obtain i where i: "i < length (take 16 (drop (k' * c) ps))"
    and pi: "take 16 (drop (k' * c) ps) ! i = p" by (auto simp: in_set_conv_nth)
  from i have i16: "i < 16" and il: "k' * c + i < length ps" by auto
  from pi i16 il have "p = ps ! (k' * c + i)" by simp
  with tp have "map title ps ! (k * c + j) = map title ps ! (k' * c + i)"
    using q il by simp
  with q il have "k * c + j = k' * c + i"
    using nth_eq_iff_index_eq [OF dist, of "k * c + j" "k' * c + i"] by simp
  moreover have "i < c" using i16 c by simp
  ultimately have "i = j" using block_offsets [of i c j k' k] j by simp
  with i16 j show False by simp
qed

text \<open>
  C9. In multi mode with more than 16 slots per screen each monitor still consumes
  \<open>slots_per_screen\<close> pages from the cursor (window \<open>k\<close> is handed the block starting
  at \<open>k * slots_per_screen\<close>), but its grid has only 16 cells, which show the first 16
  pages of the block. The pages a monitor consumed beyond its 16th are in no cell of any
  window: when the titles are distinct, the title of such a page is shown on no window
  at all, even though later windows may have "No Signal" cells.
\<close>

theorem apply_mode_multi_more_than_16_slots:
  assumes multi: "mode self \<noteq> ''single''" and big: "16 < slots_per_screen self"
  shows
   "\<exists>calls self'. apply_mode scrs self = Inr (calls, self')
      \<and> length (windows self') = length scrs
      \<and> (\<forall>k<length scrs. \<exists>w. windows self' ! k = MultiW w
            \<and> mw_pages w = take (nat (slots_per_screen self))
                              (drop (k * nat (slots_per_screen self)) (pages self))
            \<and> length (grid w) = 16
            \<and> map (snd \<circ> snd) (grid w)
               = map (\<lambda>p. Container (title p) \<lparr>view_url = format_url (url p)\<rparr>)
                   (take 16 (drop (k * nat (slots_per_screen self)) (pages self)))
                 @ replicate (16 - length (drop (k * nat (slots_per_screen self)) (pages self)))
                     NoSignalWidget)
      \<and> (distinct (map title (pages self)) \<longrightarrow>
           (\<forall>k j k'. 16 \<le> j \<and> j < nat (slots_per_screen self)
                \<and> k * nat (slots_per_screen self) + j < length (pages self)
                \<and> k' < length scrs \<longrightarrow>
              (\<exists>w'. windows self' ! k' = MultiW w'
                 \<and> Some (title (pages self ! (k * nat (slots_per_screen self) + j)))
                     \<notin> set (map (widget_title \<circ> snd \<circ> snd) (grid w')))))"
proof -
  from big have pos: "0 < slots_per_screen self" by simp
  let ?c = "nat (slots_per_screen self)"
  from big have c16: "16 < ?c" by simp
  have n16: "nat (fst (get_grid_for_slots (slots_per_screen self))
                  * snd (get_grid_for_slots (slots_per_screen self))) = 16"
    using big by (rule cells_large)
  let ?I = "\<lambda>k. snd (MultiScreenWindow_init (take ?c (drop (k * ?c) (pages self)))
                   (refresh_interval self) (geometry_x (scrs ! k)) (geometry_y (scrs ! k))
                   (geometry_width (scrs ! k)) (geometry_height (scrs ! k))
                   (slots_per_screen self))"
  let ?C = "\<lambda>p. Container (title p) \<lparr>view_url = format_url (url p)\<rparr>"
  let ?G = "\<lambda>k. map ?C (take 16 (drop (k * ?c) (pages self)))
                 @ replicate (16 - length (drop (k * ?c) (pages self))) NoSignalWidget"
  from windows_of_apply_mode_multi [OF multi pos, of scrs]
  obtain calls self' where ap: "apply_mode scrs self = Inr (calls, self')"
    and len: "length (windows self') = length scrs"
    and win: "\<forall>k<length scrs. windows self' ! k = show_window (MultiW (?I k))"
    by blast
  have widgets: "map (snd \<circ> snd) (grid ((?I k)\<lparr>mw_visible := True\<rparr>)) = ?G k" for k
  proof -
    have a: "16 - length (take ?c (drop (k * ?c) (pages self)))
          = 16 - length (drop (k * ?c) (pages self))"
      using c16 by (simp add: min_def)
    have b: "take 16 (take ?c (drop (k * ?c) (pages self)))
          = take 16 (drop (k * ?c) (pages self))"
      using c16 by (simp add: min_def)
    have g0: "grid ((?I k)\<lparr>mw_visible := True\<rparr>) = grid (?I k)" by simp
    have "map (snd \<circ> snd) (grid (?I k))
          = map ?C (take 16 (take ?c (drop (k * ?c) (pages self))))
            @ replicate (16 - length (take ?c (drop (k * ?c) (pages self)))) NoSignalWidget"
      using grid_widgets [of "take ?c (drop (k * ?c) (pages self))" "refresh_interval self"
        "geometry_x (scrs ! k)" "geometry_y (scrs ! k)" "geometry_width (scrs ! k)"
        "geometry_height (scrs ! k)" "slots_per_screen self"]
      by (simp only: n16)
    then show ?thesis by (simp only: g0 a b)
  qed
  have each: "\<forall>k<length scrs. \<exists>w. windows self' ! k = MultiW w
            \<and> mw_pages w = take ?c (drop (k * ?c) (pages self))
            \<and> length (grid w) = 16
            \<and> map (snd \<circ> snd) (grid w) = ?G k"
  proof (intro allI impI)
    fix k assume k: "k < length scrs"
    let ?w = "(?I k)\<lparr>mw_visible := True\<rparr>"
    from win k have at: "windows self' ! k = MultiW ?w" by (simp add: show_window_def)
    have p: "mw_pages ?w = take ?c (drop (k * ?c) (pages self))"
      by (simp add: MultiScreenWindow_init_eq)
    have l: "length (grid ?w) = 16"
      using grid_length [of "take ?c (drop (k * ?c) (pages self))" "refresh_interval self"
        "geometry_x (scrs ! k)" "geometry_y (scrs ! k)" "geometry_width (scrs ! k)"
        "geometry_height (scrs ! k)" "slots_per_screen self"]
      by (simp add: n16)
    from at p l widgets [of k]
    show "\<exists>w. windows self' ! k = MultiW w
            \<and> mw_pages w = take ?c (drop (k * ?c) (pages self))
            \<and> length (grid w) = 16
            \<and> map (snd \<circ> snd) (grid w) = ?G k"
      by blast
  qed
  have lost: "distinct (map title (pages self)) \<longrightarrow>
           (\<forall>k j k'. 16 \<le> j \<and> j < ?c \<and> k * ?c + j < length (pages self)
                \<and> k' < length scrs \<longrightarrow>
              (\<exists>w'. windows self' ! k' = MultiW w'
                 \<and> Some (title (pages self ! (k * ?c + j)))
                     \<notin> set (map (widget_title \<circ> snd \<circ> snd) (grid w'))))"
  proof (intro allI impI)
    fix k j k'
    assume dist: "distinct (map title (pages self))"
      and h: "16 \<le> j \<and> j < ?c \<and> k * ?c + j < length (pages self) \<and> k' < length scrs"
    let ?w = "(?I k')\<lparr>mw_visible := True\<rparr>"
    from win h have at: "windows self' ! k' = MultiW ?w" by (simp add: show_window_def)
    have "map (widget_title \<circ> snd \<circ> snd) (grid ?w) = map widget_title (map (snd \<circ> snd) (grid ?w))"
      by (simp add: comp_def)
    also have "\<dots> = map widget_title (?G k')" by (simp only: widgets)
    finally have "set (map (widget_title \<circ> snd \<circ> snd) (grid ?w))
        \<subseteq> (Some \<circ> title) ` set (take 16 (drop (k' * ?c) (pages self))) \<union> {None}"
      by auto
    moreover have "title (pages self ! (k * ?c + j))
        \<notin> title ` set (take 16 (drop (k' * ?c) (pages self)))"
      using title_not_in_block [OF dist c16, of j k k'] h by simp
    ultimately have "Some (title (pages self ! (k * ?c + j)))
                     \<notin> set (map (widget_title \<circ> snd \<circ> snd) (grid ?w))"
      by auto
    with at show "\<exists>w'. windows self' ! k' = MultiW w'
                 \<and> Some (title (pages self ! (k * ?c + j)))
                     \<notin> set (map (widget_title \<circ> snd \<circ> snd) (grid w'))"
      by blast
  qed
  from ap len each lost show ?thesis by blast
qed


theorem apply_mode_multi_more_than_16_slots_witness:
  "\<exists>calls self'.
     apply_mode
       [\<lparr>geometry_x = 0, geometry_y = 0, geometry_width = 1920, geometry_height = 1080\<rparr>,
        \<lparr>geometry_x = 1920, geometry_y = 0, geometry_width = 1920, geometry_height = 1080\<rparr>]
       \<lparr>mode = ''multi'',
        pages = [\<lparr>title = ''p00'', url = ''p00.org''\<rparr>, \<lparr>title = ''p01'', url = ''p01.org''\<rparr>,
            \<lparr>title = ''p02'', url = ''p02.org''\<rparr>, \<lparr>title = ''p03'', url = ''p03.org''\<rparr>,
            \<lparr>title = ''p04'', url = ''p04.org''\<rparr>, \<lparr>title = ''p05'', url = ''p05.org''\<rparr>,
            \<lparr>title = ''p06'', url = ''p06.org''\<rparr>, \<lparr>title = ''p07'', url = ''p07.org''\<rparr>,
            \<lparr>title = ''p08'', url = ''p08.org''\<rparr>, \<lparr>title = ''p09'', url = ''p09.org''\<rparr>,
            \<lparr>title = ''p10'', url = ''p10.org''\<rparr>, \<lparr>title = ''p11'', url = ''p11.org''\<rparr>,
            \<lparr>title = ''p12'', url = ''p12.org''\<rparr>, \<lparr>title = ''p13'', url = ''p13.org''\<rparr>,
            \<lparr>title = ''p14'', url = ''p14.org''\<rparr>, \<lparr>title = ''p15'', url = ''p15.org''\<rparr>,
            \<lparr>title = ''p16'', url = ''p16.org''\<rparr>, \<lparr>title = ''p17'', url = ''p17.org''\<rparr>],
        refresh_interval = 5000, slots_per_screen = 17, windows = []\<rparr>
       = Inr (calls, self')
     \<and> length (windows self') = 2
     \<and> (\<exists>w. windows self' ! 0 = MultiW w
          \<and> mw_pages w = [\<lparr>title = ''p00'', url = ''p00.org''\<rparr>, \<lparr>title = ''p01'', url = ''p01.org''\<rparr>,
            \<lparr>title = ''p02'', url = ''p02.org''\<rparr>, \<lparr>title = ''p03'', url = ''p03.org''\<rparr>,
            \<lparr>title = ''p04'', url = ''p04.org''\<rparr>, \<lparr>title = ''p05'', url = ''p05.org''\<rparr>,
            \<lparr>title = ''p06'', url = ''p06.org''\<rparr>, \<lparr>title = ''p07'', url = ''p07.org''\<rparr>,
            \<lparr>title = ''p08'', url = ''p08.org''\<rparr>, \<lparr>title = ''p09'', url = ''p09.org''\<rparr>,
            \<lparr>title = ''p10'', url = ''p10.org''\<rparr>, \<lparr>title = ''p11'', url = ''p11.org''\<rparr>,
            \<lparr>title = ''p12'', url = ''p12.org''\<rparr>, \<lparr>title = ''p13'', url = ''p13.org''\<rparr>,
            \<lparr>title = ''p14'', url = ''p14.org''\<rparr>, \<lparr>title = ''p15'', url = ''p15.org''\<rparr>,
            \<lparr>title = ''p16'', url = ''p16.org''\<rparr>]
          \<and> length (grid w) = 16)
     \<and> (\<exists>w. windows self' ! 0 = MultiW w
          \<and> Some ''p16'' \<notin> set (map (widget_title \<circ> snd \<circ> snd) (grid w)))
     \<and> (\<exists>w. windows self' ! 1 = MultiW w
          \<and> Some ''p16'' \<notin> set (map (widget_title \<circ> snd \<circ> snd) (grid w)))
     \<and> (\<exists>w. windows self' ! 1 = MultiW w
          \<and> mw_pages w = [\<lparr>title = ''p17'', url = ''p17.org''\<rparr>]
          \<and> map (snd \<circ> snd) (grid w)
              = Container ''p17'' \<lparr>view_url = format_url ''p17.org''\<rparr> # replicate 15 NoSignalWidget)"
proof -
  let ?scrs = "[\<lparr>geometry_x = 0, geometry_y = 0, geometry_width = 1920, geometry_height = 1080\<rparr>,
        \<lparr>geometry_x = 1920, geometry_y = 0, geometry_width = 1920, geometry_height = 1080\<rparr>]"
  let ?ps = "[\<lparr>title = ''p00'', url = ''p00.org''\<rparr>, \<lparr>title = ''p01'', url = ''p01.org''\<rparr>,
            \<lparr>title = ''p02'', url = ''p02.org''\<rparr>, \<lparr>title = ''p03'', url = ''p03.org''\<rparr>,
            \<lparr>title = ''p04'', url = ''p04.org''\<rparr>, \<lparr>title = ''p05'', url = ''p05.org''\<rparr>,
            \<lparr>title = ''p06'', url = ''p06.org''\<rparr>, \<lparr>title = ''p07'', url = ''p07.org''\<rparr>,
            \<lparr>title = ''p08'', url = ''p08.org''\<rparr>, \<lparr>title = ''p09'', url = ''p09.org''\<rparr>,
            \<lparr>title = ''p10'', url = ''p10.org''\<rparr>, \<lparr>title = ''p11'', url = ''p11.org''\<rparr>,
            \<lparr>title = ''p12'', url = ''p12.org''\<rparr>, \<lparr>title = ''p13'', url = ''p13.org''\<rparr>,
            \<lparr>title = ''p14'', url = ''p14.org''\<rparr>, \<lparr>title = ''p15'', url = ''p15.org''\<rparr>,
            \<lparr>title = ''p16'', url = ''p16.org''\<rparr>, \<lparr>title = ''p17'', url = ''p17.org''\<rparr>]"
  let ?ctl = "\<lparr>mode = ''multi'', pages = ?ps,
        refresh_interval = 5000, slots_per_screen = 17, windows = []\<rparr>"
  have m: "mode ?ctl \<noteq> ''single''" by simp
  have b: "16 < slots_per_screen ?ctl" by simp
  have d: "distinct (map title (pages ?ctl))" by simp
  from apply_mode_multi_more_than_16_slots [OF m b, of ?scrs]
  obtain calls self' where ap: "apply_mode ?scrs ?ctl = Inr (calls, self')"
    and len: "length (windows self') = length ?scrs"
    and each: "\<forall>k<length ?scrs. \<exists>w. windows self' ! k = MultiW w
            \<and> mw_pages w = take (nat (slots_per_screen ?ctl))
                              (drop (k * nat (slots_per_screen ?ctl)) (pages ?ctl))
            \<and> length (grid w) = 16
            \<and> map (snd \<circ> snd) (grid w)
               = map (\<lambda>p. Container (title p) \<lparr>view_url = format_url (url p)\<rparr>)
                   (take 16 (drop (k * nat (slots_per_screen ?ctl)) (pages ?ctl)))
                 @ replicate (16 - length (drop (k * nat (slots_per_screen ?ctl)) (pages ?ctl)))
                     NoSignalWidget"
    and lost: "distinct (map title (pages ?ctl)) \<longrightarrow>
           (\<forall>k j k'. 16 \<le> j \<and> j < nat (slots_per_screen ?ctl)
                \<and> k * nat (slots_per_screen ?ctl) + j < length (pages ?ctl)
                \<and> k' < length ?scrs \<longrightarrow>
              (\<exists>w'. windows self' ! k' = MultiW w'
                 \<and> Some (title (pages ?ctl ! (k * nat (slots_per_screen ?ctl) + j)))
                     \<notin> set (map (widget_title \<circ> snd \<circ> snd) (grid w'))))"
    by blast
  from len have c1: "length (windows self') = 2" by simp
  from spec [OF each, of 0] have c2: "\<exists>w. windows self' ! 0 = MultiW w
          \<and> mw_pages w = [\<lparr>title = ''p00'', url = ''p00.org''\<rparr>, \<lparr>title = ''p01'', url = ''p01.org''\<rparr>,
            \<lparr>title = ''p02'', url = ''p02.org''\<rparr>, \<lparr>title = ''p03'', url = ''p03.org''\<rparr>,
            \<lparr>title = ''p04'', url = ''p04.org''\<rparr>, \<lparr>title = ''p05'', url = ''p05.org''\<rparr>,
            \<lparr>title = ''p06'', url = ''p06.org''\<rparr>, \<lparr>title = ''p07'', url = ''p07.org''\<rparr>,
            \<lparr>title = ''p08'', url = ''p08.org''\<rparr>, \<lparr>title = ''p09'', url = ''p09.org''\<rparr>,
            \<lparr>title = ''p10'', url = ''p10.org''\<rparr>, \<lparr>title = ''p11'', url = ''p11.org''\<rparr>,
            \<lparr>title = ''p12'', url = ''p12.org''\<rparr>, \<lparr>title = ''p13'', url = ''p13.org''\<rparr>,
            \<lparr>title = ''p14'', url = ''p14.org''\<rparr>, \<lparr>title = ''p15'', url = ''p15.org''\<rparr>,
            \<lparr>title = ''p16'', url = ''p16.org''\<rparr>]
          \<and> length (grid w) = 16"
    by simp (elim exE conjE, rule exI, intro conjI, assumption+)
  from spec [OF each, of 1] have c5: "\<exists>w. windows self' ! 1 = MultiW w
          \<and> mw_pages w = [\<lparr>title = ''p17'', url = ''p17.org''\<rparr>]
          \<and> map (snd \<circ> snd) (grid w)
              = Container ''p17'' \<lparr>view_url = format_url ''p17.org''\<rparr> # replicate 15 NoSignalWidget"
    by (simp add: numeral_eq_Suc) (elim exE conjE, rule exI, intro conjI, assumption+)
  from lost d have lost': "\<forall>k j k'. 16 \<le> j \<and> j < nat (slots_per_screen ?ctl)
                \<and> k * nat (slots_per_screen ?ctl) + j < length (pages ?ctl)
                \<and> k' < length ?scrs \<longrightarrow>
              (\<exists>w'. windows self' ! k' = MultiW w'
                 \<and> Some (title (pages ?ctl ! (k * nat (slots_per_screen ?ctl) + j)))
                     \<notin> set (map (widget_title \<circ> snd \<circ> snd) (grid w')))"
    by (rule mp)
  have t: "title (pages ?ctl ! (0 * nat (slots_per_screen ?ctl) + 16)) = ''p16''" by simp
  from lost' [rule_format, of 16 0 0] have c3: "\<exists>w. windows self' ! 0 = MultiW w
          \<and> Some ''p16'' \<notin> set (map (widget_title \<circ> snd \<circ> snd) (grid w))"
    unfolding t by simp
  from lost' [rule_format, of 16 0 1] have c4: "\<exists>w. windows self' ! 1 = MultiW w
          \<and> Some ''p16'' \<notin> set (map (widget_title \<circ> snd \<circ> snd) (grid w))"
    unfolding t by simp
  show ?thesis
    by (rule exI [of _ calls], rule exI [of _ self']) (simp only: ap c1 c2 c3 c4 c5 simp_thms)
qed

section \<open>The periodic reload of a multi-screen window\<close>

lemma views_of_grid:
  "views (snd (MultiScreenWindow_init ps interval x y width height slots))
     = concat (map (\<lambda>wd. case wd of Container t v \<Rightarrow> [v] | NoSignalWidget \<Rightarrow> [])
         (map (snd \<circ> snd) (grid (snd (MultiScreenWindow_init ps interval x y width height slots)))))"
  unfolding grid_widgets
  by (simp add: MultiScreenWindow_init_eq comp_def setUrl_def QWebEngineView_def
      concat_map_singleton)

text \<open>
  C7. In multi mode a timer tick makes reload calls only, one for each view of the
  window in order, and leaves the window as it is, however often the timer fires: no
  slot is reassigned and nothing rotates. The views of a constructed window are exactly
  the views sitting in the grid cells that carry a page: cell \<open>i\<close> carries page \<open>i\<close> of
  the window's pages with view \<open>i\<close>, which holds that page's normalised URL, and the
  cells without a page are "No Signal" widgets, which have no view and so are never
  reloaded.
\<close>

theorem refresh_all_views_reloads_assigned_slots:
  "refresh_all_views w = (map Reload (views w), w)
   \<and> ((snd \<circ> refresh_all_views) ^^ n) w = w
   \<and> tick_window (MultiW w) = Inr (map Reload (views w), MultiW w)
   \<and> views (snd (MultiScreenWindow_init ps interval x y width height slots))
      = concat (map (\<lambda>cell. case snd (snd cell) of Container t v \<Rightarrow> [v] | NoSignalWidget \<Rightarrow> [])
          (grid (snd (MultiScreenWindow_init ps interval x y width height slots))))
   \<and> length (views (snd (MultiScreenWindow_init ps interval x y width height slots)))
      = min (length ps)
          (length (grid (snd (MultiScreenWindow_init ps interval x y width height slots))))
   \<and> (\<forall>i<length (grid (snd (MultiScreenWindow_init ps interval x y width height slots))).
         snd (snd (grid (snd (MultiScreenWindow_init ps interval x y width height slots)) ! i))
         = (if i < length ps
            then Container (title (ps ! i))
                   (views (snd (MultiScreenWindow_init ps interval x y width height slots)) ! i)
            else NoSignalWidget))
   \<and> (\<forall>i<length (views (snd (MultiScreenWindow_init ps interval x y width height slots))).
         view_url (views (snd (MultiScreenWindow_init ps interval x y width height slots)) ! i)
         = format_url (url (ps ! i)))"
proof (intro conjI)
  show "refresh_all_views w = (map Reload (views w), w)"
    by (simp add: refresh_all_views_def)
  show "((snd \<circ> refresh_all_views) ^^ n) w = w"
    by (induction n) (simp_all add: refresh_all_views_def)
  show "tick_window (MultiW w) = Inr (map Reload (views w), MultiW w)"
    by (simp add: tick_window_def refresh_all_views_def)
  let ?w0 = "snd (MultiScreenWindow_init ps interval x y width height slots)"
  show "views ?w0
      = concat (map (\<lambda>cell. case snd (snd cell) of Container t v \<Rightarrow> [v] | NoSignalWidget \<Rightarrow> [])
          (grid ?w0))"
    using views_of_grid [of ps interval x y width height slots]
    by (simp add: comp_def)
  show "length (views ?w0) = min (length ps) (length (grid ?w0))"
    by (simp add: MultiScreenWindow_init_eq min.commute)
  show "\<forall>i<length (grid ?w0). snd (snd (grid ?w0 ! i))
         = (if i < length ps then Container (title (ps ! i)) (views ?w0 ! i) else NoSignalWidget)"
    by (simp add: MultiScreenWindow_init_eq)
  show "\<forall>i<length (views ?w0). view_url (views ?w0 ! i) = format_url (url (ps ! i))"
    by (simp add: MultiScreenWindow_init_eq setUrl_def QWebEngineView_def)
qed

theorem refresh_all_views_reloads_assigned_slots_witness:
  "grid (snd (MultiScreenWindow_init
       [\<lparr>title = ''A'', url = ''a.org''\<rparr>, \<lparr>title = ''B'', url = ''http://b.org''\<rparr>]
       5000 0 0 1920 1080 3))
     = [(0, 0, Container ''A'' \<lparr>view_url = ''https://a.org''\<rparr>),
        (0, 1, Container ''B'' \<lparr>view_url = ''http://b.org''\<rparr>),
        (1, 0, NoSignalWidget), (1, 1, NoSignalWidget)]
   \<and> views (snd (MultiScreenWindow_init
       [\<lparr>title = ''A'', url = ''a.org''\<rparr>, \<lparr>title = ''B'', url = ''http://b.org''\<rparr>]
       5000 0 0 1920 1080 3))
     = [\<lparr>view_url = ''https://a.org''\<rparr>, \<lparr>view_url = ''http://b.org''\<rparr>]
   \<and> refresh_all_views (snd (MultiScreenWindow_init
       [\<lparr>title = ''A'', url = ''a.org''\<rparr>, \<lparr>title = ''B'', url = ''http://b.org''\<rparr>]
       5000 0 0 1920 1080 3))
     = ([Reload \<lparr>view_url = ''https://a.org''\<rparr>, Reload \<lparr>view_url = ''http://b.org''\<rparr>],
        snd (MultiScreenWindow_init
       [\<lparr>title = ''A'', url = ''a.org''\<rparr>, \<lparr>title = ''B'', url = ''http://b.org''\<rparr>]
       5000 0 0 1920 1080 3))
   \<and> snd (snd (grid (snd (MultiScreenWindow_init
       [\<lparr>title = ''A'', url = ''a.org''\<rparr>, \<lparr>title = ''B'', url = ''http://b.org''\<rparr>]
       5000 0 0 1920 1080 3)) ! 1))
     = Container ''B'' (views (snd (MultiScreenWindow_init
       [\<lparr>title = ''A'', url = ''a.org''\<rparr>, \<lparr>title = ''B'', url = ''http://b.org''\<rparr>]
       5000 0 0 1920 1080 3)) ! 1)
   \<and> snd (snd (grid (snd (MultiScreenWindow_init
       [\<lparr>title = ''A'', url = ''a.org''\<rparr>, \<lparr>title = ''B'', url = ''http://b.org''\<rparr>]
       5000 0 0 1920 1080 3)) ! 3))
     = NoSignalWidget"
proof -
  let ?ps = "[\<lparr>title = ''A'', url = ''a.org''\<rparr>, \<lparr>title = ''B'', url = ''http://b.org''\<rparr>]"
  let ?w0 = "snd (MultiScreenWindow_init ?ps 5000 0 0 1920 1080 3)"
  have fa: "format_url ''a.org'' = ''https://a.org''"
    by (simp add: format_url_def strip_def startswith_def is_space_def)
  have fb: "format_url ''http://b.org'' = ''http://b.org''"
    by (simp add: format_url_def strip_def startswith_def is_space_def)
  have g: "grid ?w0 = [(0, 0, Container ''A'' \<lparr>view_url = ''https://a.org''\<rparr>),
        (0, 1, Container ''B'' \<lparr>view_url = ''http://b.org''\<rparr>),
        (1, 0, NoSignalWidget), (1, 1, NoSignalWidget)]"
    by (simp add: MultiScreenWindow_init_eq get_grid_for_slots_def upt_rec setUrl_def
        QWebEngineView_def fa fb)
  have v: "views ?w0 = [\<lparr>view_url = ''https://a.org''\<rparr>, \<lparr>view_url = ''http://b.org''\<rparr>]"
    by (simp add: MultiScreenWindow_init_eq get_grid_for_slots_def setUrl_def
        QWebEngineView_def fa fb)
  have l: "length (grid ?w0) = 4" by (simp add: g)
  note t = refresh_all_views_reloads_assigned_slots [of ?w0 0 ?ps 5000 0 0 1920 1080 3]
  from t have r: "refresh_all_views ?w0 = (map Reload (views ?w0), ?w0)" by blast
  from t have c: "\<forall>i<length (grid ?w0). snd (snd (grid ?w0 ! i))
         = (if i < length ?ps then Container (title (?ps ! i)) (views ?w0 ! i) else NoSignalWidget)"
    by blast
  from spec [OF c, of 1] l have c1: "snd (snd (grid ?w0 ! 1)) = Container ''B'' (views ?w0 ! 1)"
    by simp
  from spec [OF c, of 3] l have c3: "snd (snd (grid ?w0 ! 3)) = NoSignalWidget"
    by simp
  from r have r': "refresh_all_views ?w0
      = ([Reload \<lparr>view_url = ''https://a.org''\<rparr>, Reload \<lparr>view_url = ''http://b.org''\<rparr>], ?w0)"
    by (simp add: v)
  from g v r' c1 c3 show ?thesis by (intro conjI)
qed

section \<open>Rotation in single mode\<close>

lemma show_next_page_empty: "sw_pages w = [] \<Longrightarrow> show_next_page w = Inr ([], w)"
  by (simp add: show_next_page_def)

lemma timer_ticks_empty: "sw_pages w = [] \<Longrightarrow> timer_ticks k w = Inr ([], w)"
  by (induction k) (simp_all add: show_next_page_empty)

lemma show_next_page_in_bounds:
  assumes "index_in_bounds w"
  shows "show_next_page w =
     Inr ([SetUrl (format_url (url (sw_pages w ! nat (current_index w))))],
          w\<lparr>title_label := title (sw_pages w ! nat (current_index w)),
            webview := setUrl (webview w) (format_url (url (sw_pages w ! nat (current_index w)))),
            current_index := (current_index w + 1) mod int (length (sw_pages w))\<rparr>)"
  using assms by (auto simp: show_next_page_def index_in_bounds_def py_index_def Let_def)

lemma fields_in_bounds: "ps \<noteq> [] \<Longrightarrow> index_in_bounds (SingleScreenWindow_fields ps ri)"
  by (simp add: index_in_bounds_def SingleScreenWindow_fields_def)

lemma timer_ticks_rotation:
  assumes "index_in_bounds w"
  shows "\<exists>w'. timer_ticks k w =
            Inr (map (\<lambda>j. SetUrl (format_url (url (sw_pages w
                     ! ((nat (current_index w) + j) mod length (sw_pages w)))))) [0..<k], w')
          \<and> sw_pages w' = sw_pages w
          \<and> current_index w' = int ((nat (current_index w) + k) mod length (sw_pages w))
          \<and> index_in_bounds w'"
  using assms
proof (induction k arbitrary: w)
  case 0
  then have "nat (current_index w) < length (sw_pages w)" and "0 \<le> current_index w"
    by (auto simp: index_in_bounds_def nat_less_iff)
  with 0 show ?case by simp
next
  case (Suc k)
  let ?n = "length (sw_pages w)"
  let ?i = "nat (current_index w)"
  let ?w1 = "w\<lparr>title_label := title (sw_pages w ! ?i),
            webview := setUrl (webview w) (format_url (url (sw_pages w ! ?i))),
            current_index := (current_index w + 1) mod int ?n\<rparr>"
  from Suc.prems have i: "?i < ?n" and ci: "current_index w = int ?i"
    by (auto simp: index_in_bounds_def nat_less_iff)
  have step: "show_next_page w = Inr ([SetUrl (format_url (url (sw_pages w ! ?i)))], ?w1)"
    using Suc.prems by (rule show_next_page_in_bounds)
  have idx: "current_index ?w1 = int ((?i + 1) mod ?n)"
    using ci by (simp add: zmod_int add.commute)
  from i have npos: "0 < int ?n" by (cases "sw_pages w") simp_all
  have inb: "index_in_bounds ?w1"
    using npos by (simp add: index_in_bounds_def)
  have nat1: "nat (current_index ?w1) = (?i + 1) mod ?n"
    using idx by simp
  from Suc.IH [OF inb] obtain w' where
    rest: "timer_ticks k ?w1 =
            Inr (map (\<lambda>j. SetUrl (format_url (url (sw_pages ?w1
                     ! ((nat (current_index ?w1) + j) mod length (sw_pages ?w1)))))) [0..<k], w')"
    and pw: "sw_pages w' = sw_pages ?w1"
    and cw: "current_index w' = int ((nat (current_index ?w1) + k) mod length (sw_pages ?w1))"
    and iw: "index_in_bounds w'"
    by blast
  have p1: "sw_pages ?w1 = sw_pages w" by simp
  have shift: "((?i + 1) mod ?n + j) mod ?n = (?i + Suc j) mod ?n" for j
    by (simp add: mod_add_left_eq)
  have rest': "timer_ticks k ?w1 =
            Inr (map (\<lambda>j. SetUrl (format_url (url (sw_pages w ! ((?i + Suc j) mod ?n))))) [0..<k], w')"
    using rest by (simp only: nat1 p1 shift)
  have "timer_ticks (Suc k) w =
          Inr (map (\<lambda>j. SetUrl (format_url (url (sw_pages w ! ((?i + j) mod ?n))))) [0..<Suc k], w')"
    using i by (simp add: step rest' map_upt_Suc del: upt_Suc)
  moreover have "current_index w' = int ((?i + Suc k) mod ?n)"
    using cw by (simp only: nat1 p1 shift)
  moreover have "sw_pages w' = sw_pages w" using pw by simp
  ultimately show ?case using iw by blast
qed


text \<open>
  C3. In single mode with a non-empty page list of length n the constructor succeeds and
  renders immediately (tick 0), and on tick k, for every k, the page rendered is the one
  with index k mod n: the renderer calls of the construction and of the k timer ticks
  after it are the pages 0 mod n, 1 mod n, ..., k mod n in this order, and the index
  is (k + 1) mod n afterwards. Every render shows the page at the current index (title
  and normalised URL) and then advances the index to (current_index + 1) mod n. With an
  empty page list neither the construction nor any number of ticks makes a renderer call.
\<close>

theorem single_mode_tick_renders_k_mod_n:
  "(ps \<noteq> [] \<longrightarrow>
      (\<exists>c0 w1. SingleScreenWindow_init ps ri = Inr (c0, w1)
         \<and> c0 = [SetUrl (format_url (url (ps ! 0)))]
         \<and> (\<forall>k. \<exists>cs w. timer_ticks k w1 = Inr (cs, w)
               \<and> c0 @ cs = map (\<lambda>j. SetUrl (format_url (url (ps ! (j mod length ps)))))
                              [0..<Suc k]
               \<and> current_index w = int (Suc k mod length ps))))
   \<and> (index_in_bounds w \<longrightarrow>
        (\<exists>w'. show_next_page w
                = Inr ([SetUrl (format_url (url (sw_pages w ! nat (current_index w))))], w')
           \<and> title_label w' = title (sw_pages w ! nat (current_index w))
           \<and> view_url (webview w') = format_url (url (sw_pages w ! nat (current_index w)))
           \<and> current_index w' = (current_index w + 1) mod int (length (sw_pages w))))
   \<and> (\<exists>w0. SingleScreenWindow_init [] ri = Inr ([], w0)
          \<and> (\<forall>k. timer_ticks k w0 = Inr ([], w0)))"
proof (intro conjI impI)
  assume ne: "ps \<noteq> []"
  let ?w0 = "SingleScreenWindow_fields ps ri"
  let ?f = "\<lambda>j. SetUrl (format_url (url (ps ! (j mod length ps))))"
  have inb: "index_in_bounds ?w0" using ne by (rule fields_in_bounds)
  have p0: "sw_pages ?w0 = ps" and i0: "nat (current_index ?w0) = 0"
    by (simp_all add: SingleScreenWindow_fields_def)
  from show_next_page_in_bounds [OF inb]
  obtain w1 where init: "show_next_page ?w0 = Inr ([SetUrl (format_url (url (ps ! 0)))], w1)"
    by (simp add: p0 i0)
  have ticks: "\<exists>cs w. timer_ticks k w1 = Inr (cs, w)
               \<and> [SetUrl (format_url (url (ps ! 0)))] @ cs = map ?f [0..<Suc k]
               \<and> current_index w = int (Suc k mod length ps)" for k
  proof -
    from timer_ticks_rotation [OF inb, of "Suc k"]
    obtain w where tt: "timer_ticks (Suc k) ?w0 = Inr (map ?f [0..<Suc k], w)"
      and ci: "current_index w = int (Suc k mod length ps)"
      by (auto simp only: p0 i0 add_0)
    have "timer_ticks (Suc k) ?w0 =
            (case timer_ticks k w1 of
               Inl e \<Rightarrow> Inl e
             | Inr (cs, w) \<Rightarrow> Inr ([SetUrl (format_url (url (ps ! 0)))] @ cs, w))"
      by (simp add: init)
    with tt obtain cs where "timer_ticks k w1 = Inr (cs, w)"
      and "[SetUrl (format_url (url (ps ! 0)))] @ cs = map ?f [0..<Suc k]"
      by (auto split: sum.splits simp del: upt_Suc)
    with ci show ?thesis by blast
  qed
  from init ticks
  show "\<exists>c0 w1. SingleScreenWindow_init ps ri = Inr (c0, w1)
         \<and> c0 = [SetUrl (format_url (url (ps ! 0)))]
         \<and> (\<forall>k. \<exists>cs w. timer_ticks k w1 = Inr (cs, w)
               \<and> c0 @ cs = map ?f [0..<Suc k]
               \<and> current_index w = int (Suc k mod length ps))"
    unfolding SingleScreenWindow_init_def by blast
next
  assume "index_in_bounds w"
  then show "\<exists>w'. show_next_page w
                = Inr ([SetUrl (format_url (url (sw_pages w ! nat (current_index w))))], w')
           \<and> title_label w' = title (sw_pages w ! nat (current_index w))
           \<and> view_url (webview w') = format_url (url (sw_pages w ! nat (current_index w)))
           \<and> current_index w' = (current_index w + 1) mod int (length (sw_pages w))"
    by (simp add: show_next_page_in_bounds setUrl_def)
next
  let ?w0 = "SingleScreenWindow_fields [] ri"
  have e: "sw_pages ?w0 = []" by (simp add: SingleScreenWindow_fields_def)
  have "SingleScreenWindow_init [] ri = Inr ([], ?w0)"
    unfolding SingleScreenWindow_init_def using e by (rule show_next_page_empty)
  moreover have "\<forall>k. timer_ticks k ?w0 = Inr ([], ?w0)"
    using e by (simp add: timer_ticks_empty)
  ultimately show "\<exists>w0. SingleScreenWindow_init [] ri = Inr ([], w0)
          \<and> (\<forall>k. timer_ticks k w0 = Inr ([], w0))"
    by blast
qed


theorem single_mode_tick_renders_k_mod_n_witness:
  "(\<exists>c0 w1. SingleScreenWindow_init [\<lparr>title = ''A'', url = ''a.org''\<rparr>, \<lparr>title = ''B'', url = ''b.org''\<rparr>,
          \<lparr>title = ''C'', url = ''c.org''\<rparr>] 5000 = Inr (c0, w1)
      \<and> (\<exists>cs w. timer_ticks 4 w1 = Inr (cs, w)
            \<and> c0 @ cs = [SetUrl (format_url ''a.org''), SetUrl (format_url ''b.org''),
                         SetUrl (format_url ''c.org''), SetUrl (format_url ''a.org''),
                         SetUrl (format_url ''b.org'')]
            \<and> current_index w = 2))
   \<and> index_in_bounds \<lparr>sw_pages = [\<lparr>title = ''A'', url = ''a.org''\<rparr>, \<lparr>title = ''B'', url = ''b.org''\<rparr>,
          \<lparr>title = ''C'', url = ''c.org''\<rparr>],
         sw_refresh_interval = 5000, current_index = 2, title_label = ''B'',
         webview = \<lparr>view_url = format_url ''b.org''\<rparr>, sw_visible = True\<rparr>
   \<and> (\<exists>w'. show_next_page \<lparr>sw_pages = [\<lparr>title = ''A'', url = ''a.org''\<rparr>, \<lparr>title = ''B'', url = ''b.org''\<rparr>,
          \<lparr>title = ''C'', url = ''c.org''\<rparr>],
         sw_refresh_interval = 5000, current_index = 2, title_label = ''B'',
         webview = \<lparr>view_url = format_url ''b.org''\<rparr>, sw_visible = True\<rparr> = Inr ([SetUrl (format_url ''c.org'')], w')
          \<and> title_label w' = ''C''
          \<and> view_url (webview w') = format_url ''c.org''
          \<and> current_index w' = 0)"
proof -
  let ?ps = "[\<lparr>title = ''A'', url = ''a.org''\<rparr>, \<lparr>title = ''B'', url = ''b.org''\<rparr>,
          \<lparr>title = ''C'', url = ''c.org''\<rparr>]"
  let ?w = "\<lparr>sw_pages = [\<lparr>title = ''A'', url = ''a.org''\<rparr>, \<lparr>title = ''B'', url = ''b.org''\<rparr>,
          \<lparr>title = ''C'', url = ''c.org''\<rparr>],
         sw_refresh_interval = 5000, current_index = 2, title_label = ''B'',
         webview = \<lparr>view_url = format_url ''b.org''\<rparr>, sw_visible = True\<rparr>"
  note t = single_mode_tick_renders_k_mod_n [of ?ps 5000 ?w]
  have ne: "?ps \<noteq> []" by simp
  have inb: "index_in_bounds ?w" by (simp add: index_in_bounds_def)
  from t ne obtain c0 w1 where init: "SingleScreenWindow_init ?ps 5000 = Inr (c0, w1)"
    and ticks: "\<forall>k. \<exists>cs w. timer_ticks k w1 = Inr (cs, w)
               \<and> c0 @ cs = map (\<lambda>j. SetUrl (format_url (url (?ps ! (j mod length ?ps)))))
                              [0..<Suc k]
               \<and> current_index w = int (Suc k mod length ?ps)"
    by blast
  from spec [OF ticks, of 4]
  have four: "\<exists>cs w. timer_ticks 4 w1 = Inr (cs, w)
            \<and> c0 @ cs = [SetUrl (format_url ''a.org''), SetUrl (format_url ''b.org''),
                         SetUrl (format_url ''c.org''), SetUrl (format_url ''a.org''),
                         SetUrl (format_url ''b.org'')]
            \<and> current_index w = 2"
    by (simp add: upt_rec)
  from t inb have step: "\<exists>w'. show_next_page ?w
                = Inr ([SetUrl (format_url (url (sw_pages ?w ! nat (current_index ?w))))], w')
           \<and> title_label w' = title (sw_pages ?w ! nat (current_index ?w))
           \<and> view_url (webview w') = format_url (url (sw_pages ?w ! nat (current_index ?w)))
           \<and> current_index w' = (current_index ?w + 1) mod int (length (sw_pages ?w))"
    by blast
  then have step': "\<exists>w'. show_next_page ?w = Inr ([SetUrl (format_url ''c.org'')], w')
          \<and> title_label w' = ''C''
          \<and> view_url (webview w') = format_url ''c.org''
          \<and> current_index w' = 0"
    by simp
  have "\<exists>c0 w1. SingleScreenWindow_init ?ps 5000 = Inr (c0, w1)
      \<and> (\<exists>cs w. timer_ticks 4 w1 = Inr (cs, w)
            \<and> c0 @ cs = [SetUrl (format_url ''a.org''), SetUrl (format_url ''b.org''),
                         SetUrl (format_url ''c.org''), SetUrl (format_url ''a.org''),
                         SetUrl (format_url ''b.org'')]
            \<and> current_index w = 2)"
    by (rule exI [of _ c0], rule exI [of _ w1]) (simp only: init four simp_thms)
  with inb step' show ?thesis by (intro conjI)
qed

text \<open>
  C10. In single mode with a non-empty page list the index points into the page list
  (0 <= current_index < len(pages)) after construction and after every number of timer
  ticks. A tick on a window whose index is in bounds reads the page list within bounds
  (the indexing neither raises nor wraps around from a negative index), keeps the page
  list and leaves the index in bounds.
\<close>

theorem single_mode_index_in_bounds:
  "(ps \<noteq> [] \<longrightarrow>
      (\<exists>c0 w1. SingleScreenWindow_init ps ri = Inr (c0, w1)
         \<and> index_in_bounds w1 \<and> sw_pages w1 = ps
         \<and> (\<forall>k. \<exists>cs w. timer_ticks k w1 = Inr (cs, w)
                \<and> index_in_bounds w \<and> sw_pages w = ps)))
   \<and> (index_in_bounds w \<longrightarrow>
        nat (current_index w) < length (sw_pages w)
        \<and> py_index (sw_pages w) (current_index w) = Inr (sw_pages w ! nat (current_index w))
        \<and> (\<exists>cs w'. show_next_page w = Inr (cs, w')
              \<and> index_in_bounds w' \<and> sw_pages w' = sw_pages w))"
proof (intro conjI impI)
  assume ne: "ps \<noteq> []"
  let ?w0 = "SingleScreenWindow_fields ps ri"
  have inb: "index_in_bounds ?w0" using ne by (rule fields_in_bounds)
  have p0: "sw_pages ?w0 = ps" by (simp add: SingleScreenWindow_fields_def)
  from timer_ticks_rotation [OF inb, of "Suc 0"]
  obtain c0 w1 where one: "timer_ticks (Suc 0) ?w0 = Inr (c0, w1)"
    and p1: "sw_pages w1 = ps" and inb1: "index_in_bounds w1"
    unfolding p0 by blast
  from one have init: "SingleScreenWindow_init ps ri = Inr (c0, w1)"
    unfolding SingleScreenWindow_init_def by (auto split: sum.splits)
  have "\<exists>cs w. timer_ticks k w1 = Inr (cs, w) \<and> index_in_bounds w \<and> sw_pages w = ps" for k
    using timer_ticks_rotation [OF inb1, of k] unfolding p1 by blast
  with init inb1 p1
  show "\<exists>c0 w1. SingleScreenWindow_init ps ri = Inr (c0, w1)
         \<and> index_in_bounds w1 \<and> sw_pages w1 = ps
         \<and> (\<forall>k. \<exists>cs w. timer_ticks k w1 = Inr (cs, w)
                \<and> index_in_bounds w \<and> sw_pages w = ps)"
    by blast
next
  assume inb: "index_in_bounds w"
  then show "nat (current_index w) < length (sw_pages w)"
    by (auto simp: index_in_bounds_def nat_less_iff)
  from inb show "py_index (sw_pages w) (current_index w)
                 = Inr (sw_pages w ! nat (current_index w))"
    by (auto simp: index_in_bounds_def py_index_def Let_def)
  from timer_ticks_rotation [OF inb, of "Suc 0"]
  obtain cs w' where one: "timer_ticks (Suc 0) w = Inr (cs, w')"
    and p: "sw_pages w' = sw_pages w" and i: "index_in_bounds w'"
    by blast
  from one have "show_next_page w = Inr (cs, w')" by (auto split: sum.splits)
  with p i show "\<exists>cs w'. show_next_page w = Inr (cs, w')
              \<and> index_in_bounds w' \<and> sw_pages w' = sw_pages w"
    by blast
qed

theorem single_mode_index_in_bounds_witness:
  "(\<exists>c0 w1. SingleScreenWindow_init [\<lparr>title = ''A'', url = ''a.org''\<rparr>, \<lparr>title = ''B'', url = ''b.org''\<rparr>,
          \<lparr>title = ''C'', url = ''c.org''\<rparr>] 5000 = Inr (c0, w1)
      \<and> index_in_bounds w1 \<and> sw_pages w1 = [\<lparr>title = ''A'', url = ''a.org''\<rparr>, \<lparr>title = ''B'', url = ''b.org''\<rparr>,
          \<lparr>title = ''C'', url = ''c.org''\<rparr>]
      \<and> (\<exists>cs w. timer_ticks 7 w1 = Inr (cs, w) \<and> index_in_bounds w \<and> sw_pages w = [\<lparr>title = ''A'', url = ''a.org''\<rparr>, \<lparr>title = ''B'', url = ''b.org''\<rparr>,
          \<lparr>title = ''C'', url = ''c.org''\<rparr>]))
   \<and> index_in_bounds \<lparr>sw_pages = [\<lparr>title = ''A'', url = ''a.org''\<rparr>, \<lparr>title = ''B'', url = ''b.org''\<rparr>,
          \<lparr>title = ''C'', url = ''c.org''\<rparr>],
         sw_refresh_interval = 5000, current_index = 2, title_label = ''B'',
         webview = \<lparr>view_url = format_url ''b.org''\<rparr>, sw_visible = True\<rparr>
   \<and> py_index [\<lparr>title = ''A'', url = ''a.org''\<rparr>, \<lparr>title = ''B'', url = ''b.org''\<rparr>,
          \<lparr>title = ''C'', url = ''c.org''\<rparr>] 2 = Inr \<lparr>title = ''C'', url = ''c.org''\<rparr>
   \<and> (\<exists>cs w'. show_next_page \<lparr>sw_pages = [\<lparr>title = ''A'', url = ''a.org''\<rparr>, \<lparr>title = ''B'', url = ''b.org''\<rparr>,
          \<lparr>title = ''C'', url = ''c.org''\<rparr>],
         sw_refresh_interval = 5000, current_index = 2, title_label = ''B'',
         webview = \<lparr>view_url = format_url ''b.org''\<rparr>, sw_visible = True\<rparr> = Inr (cs, w') \<and> index_in_bounds w' \<and> sw_pages w' = [\<lparr>title = ''A'', url = ''a.org''\<rparr>, \<lparr>title = ''B'', url = ''b.org''\<rparr>,
          \<lparr>title = ''C'', url = ''c.org''\<rparr>])"
proof -
  let ?ps = "[\<lparr>title = ''A'', url = ''a.org''\<rparr>, \<lparr>title = ''B'', url = ''b.org''\<rparr>,
          \<lparr>title = ''C'', url = ''c.org''\<rparr>]"
  let ?w = "\<lparr>sw_pages = [\<lparr>title = ''A'', url = ''a.org''\<rparr>, \<lparr>title = ''B'', url = ''b.org''\<rparr>,
          \<lparr>title = ''C'', url = ''c.org''\<rparr>],
         sw_refresh_interval = 5000, current_index = 2, title_label = ''B'',
         webview = \<lparr>view_url = format_url ''b.org''\<rparr>, sw_visible = True\<rparr>"
  note t = single_mode_index_in_bounds [of ?ps 5000 ?w]
  have ne: "?ps \<noteq> []" by simp
  have inb: "index_in_bounds ?w" by (simp add: index_in_bounds_def)
  from t ne obtain c0 w1 where init: "SingleScreenWindow_init ?ps 5000 = Inr (c0, w1)"
    and i1: "index_in_bounds w1" and p1: "sw_pages w1 = ?ps"
    and ticks: "\<forall>k. \<exists>cs w. timer_ticks k w1 = Inr (cs, w)
                \<and> index_in_bounds w \<and> sw_pages w = ?ps"
    by blast
  note seven = spec [OF ticks, of 7]
  have a: "\<exists>c0 w1. SingleScreenWindow_init ?ps 5000 = Inr (c0, w1)
      \<and> index_in_bounds w1 \<and> sw_pages w1 = ?ps
      \<and> (\<exists>cs w. timer_ticks 7 w1 = Inr (cs, w) \<and> index_in_bounds w \<and> sw_pages w = ?ps)"
    by (rule exI [of _ c0], rule exI [of _ w1]) (simp only: init i1 p1 seven simp_thms)
  from t inb have b: "py_index (sw_pages ?w) (current_index ?w)
        = Inr (sw_pages ?w ! nat (current_index ?w))"
    and c: "\<exists>cs w'. show_next_page ?w = Inr (cs, w')
              \<and> index_in_bounds w' \<and> sw_pages w' = sw_pages ?w"
    by blast+
  from b have b': "py_index ?ps 2 = Inr \<lparr>title = ''C'', url = ''c.org''\<rparr>" by simp
  from c have c': "\<exists>cs w'. show_next_page ?w = Inr (cs, w')
              \<and> index_in_bounds w' \<and> sw_pages w' = ?ps" by simp
  from a inb b' c' show ?thesis by (intro conjI)
qed

section \<open>Rebuilding the windows\<close>

lemma screens_loop_cong:
  assumes "pages a = pages b" "refresh_interval a = refresh_interval b"
    "slots_per_screen a = slots_per_screen b"
  shows "screens_loop a scrs i acc = screens_loop b scrs i acc"
proof (induction scrs arbitrary: i acc)
  case Nil
  then show ?case by simp
next
  case (Cons scr rest)
  obtain calls wins where acc: "acc = (calls, wins)" by (cases acc)
  show ?case unfolding acc by (simp add: assms Cons.IH split_beta Let_def)
qed

lemma SingleScreenWindow_init_total:
  "\<exists>w. SingleScreenWindow_init ps ri
          = Inr (if ps = [] then [] else [SetUrl (format_url (url (ps ! 0)))], w)
       \<and> sw_pages w = ps
       \<and> current_index w = (if ps = [] then 0 else 1 mod int (length ps))"
proof (cases "ps = []")
  case True
  then show ?thesis
    by (simp add: SingleScreenWindow_init_def show_next_page_def SingleScreenWindow_fields_def)
next
  case False
  from show_next_page_in_bounds [OF fields_in_bounds [OF False, of ri]] False
  show ?thesis
    by (simp add: SingleScreenWindow_init_def SingleScreenWindow_fields_def)
qed

lemma apply_mode_windows_irrelevant:
  "apply_mode scrs (self\<lparr>windows := ws\<rparr>) = apply_mode scrs self"
proof -
  have "screens_loop (self\<lparr>windows := ws\<rparr>) scrs 0 ([], []) = screens_loop self scrs 0 ([], [])"
    by (rule screens_loop_cong) simp_all
  then show ?thesis
    by (simp add: apply_mode_def split_beta split: sum.splits)
qed

lemma apply_mode_single:
  assumes "mode self = ''single''"
    and "SingleScreenWindow_init (pages self) (refresh_interval self) = Inr (cs, w)"
  shows "apply_mode scrs self = Inr (cs, self\<lparr>windows := [SingleW (w\<lparr>sw_visible := True\<rparr>)]\<rparr>)"
  using assms by (simp add: apply_mode_def show_window_def)

lemma apply_mode_not_single:
  assumes "mode self \<noteq> ''single''"
  shows "apply_mode scrs self =
           Inr (fst (screens_loop self scrs 0 ([], [])),
                self\<lparr>windows := map show_window (snd (screens_loop self scrs 0 ([], [])))\<rparr>)"
  using assms by (simp add: apply_mode_def split_beta)

lemma apply_mode_again:
  assumes ap: "apply_mode scrs self = Inr (calls, self\<lparr>windows := wins\<rparr>)"
  shows "apply_mode scrs (self\<lparr>windows := wins\<rparr>) = Inr (calls, self\<lparr>windows := wins\<rparr>)"
    and "apply_mode scrs (self\<lparr>windows := wins\<rparr>\<lparr>windows := ws\<rparr>) = Inr (calls, self\<lparr>windows := wins\<rparr>)"
  by (simp_all only: apply_mode_windows_irrelevant ap)

text \<open>
  C5. \<open>apply_mode\<close> is idempotent. It always returns, it changes nothing of the
  configuration, and its result does not depend on the windows that existed before:
  applying again to its own result, or to its result after any of the windows has
  ticked (or with any other window list in place), gives the same renderer calls and
  the same windows, so every page is in the same slot of the same window both times.
  In single mode the rebuilt window does not resume the rotation of the old one: it is
  the freshly constructed window, whose index is seeded with 0 and which has made its
  immediate first render, of page 0, so that the index stands at 1 mod n.
\<close>

theorem apply_mode_idempotent:
  "\<exists>calls self'. apply_mode scrs self = Inr (calls, self')
     \<and> apply_mode scrs self' = Inr (calls, self')
     \<and> mode self' = mode self \<and> pages self' = pages self
     \<and> refresh_interval self' = refresh_interval self
     \<and> slots_per_screen self' = slots_per_screen self
     \<and> (\<forall>ws. apply_mode scrs (self'\<lparr>windows := ws\<rparr>) = Inr (calls, self'))
     \<and> (\<forall>i cs win'. i < length (windows self')
            \<and> tick_window (windows self' ! i) = Inr (cs, win') \<longrightarrow>
          apply_mode scrs (self'\<lparr>windows := (windows self')[i := win']\<rparr>) = Inr (calls, self'))
     \<and> (mode self = ''single'' \<longrightarrow>
          (\<exists>w. SingleScreenWindow_init (pages self) (refresh_interval self) = Inr (calls, w)
             \<and> current_index (SingleScreenWindow_fields (pages self) (refresh_interval self)) = 0
             \<and> calls = (if pages self = [] then []
                         else [SetUrl (format_url (url (pages self ! 0)))])
             \<and> windows self' = [SingleW (w\<lparr>sw_visible := True\<rparr>)]
             \<and> current_index w
                = (if pages self = [] then 0 else 1 mod int (length (pages self)))))"
proof (cases "mode self = ''single''")
  case True
  let ?cs = "if pages self = [] then [] else [SetUrl (format_url (url (pages self ! 0)))]"
  from SingleScreenWindow_init_total [of "pages self" "refresh_interval self"]
  obtain w where init: "SingleScreenWindow_init (pages self) (refresh_interval self) = Inr (?cs, w)"
    and ci: "current_index w = (if pages self = [] then 0 else 1 mod int (length (pages self)))"
    by blast
  let ?self' = "self\<lparr>windows := [SingleW (w\<lparr>sw_visible := True\<rparr>)]\<rparr>"
  have ap: "apply_mode scrs self = Inr (?cs, ?self')"
    using True init by (rule apply_mode_single)
  have cfg: "mode ?self' = mode self \<and> pages ?self' = pages self
     \<and> refresh_interval ?self' = refresh_interval self
     \<and> slots_per_screen ?self' = slots_per_screen self"
    by simp
  have seed: "current_index (SingleScreenWindow_fields (pages self) (refresh_interval self)) = 0"
    by (simp add: SingleScreenWindow_fields_def)
  have single: "\<exists>w. SingleScreenWindow_init (pages self) (refresh_interval self) = Inr (?cs, w)
             \<and> current_index (SingleScreenWindow_fields (pages self) (refresh_interval self)) = 0
             \<and> ?cs = (if pages self = [] then []
                         else [SetUrl (format_url (url (pages self ! 0)))])
             \<and> windows ?self' = [SingleW (w\<lparr>sw_visible := True\<rparr>)]
             \<and> current_index w
                = (if pages self = [] then 0 else 1 mod int (length (pages self)))"
    using init ci seed by simp
  from ap apply_mode_again [OF ap] cfg single show ?thesis by blast
next
  case False
  let ?calls = "fst (screens_loop self scrs 0 ([], []))"
  let ?self' = "self\<lparr>windows := map show_window (snd (screens_loop self scrs 0 ([], [])))\<rparr>"
  have ap: "apply_mode scrs self = Inr (?calls, ?self')"
    using False by (rule apply_mode_not_single)
  have cfg: "mode ?self' = mode self \<and> pages ?self' = pages self
     \<and> refresh_interval ?self' = refresh_interval self
     \<and> slots_per_screen ?self' = slots_per_screen self"
    by simp
  from ap apply_mode_again [OF ap] cfg False show ?thesis by blast
qed


theorem apply_mode_idempotent_witness:
  "\<exists>calls self'.
     apply_mode [\<lparr>geometry_x = 0, geometry_y = 0, geometry_width = 1920, geometry_height = 1080\<rparr>]
       \<lparr>mode = ''single'', pages = [\<lparr>title = ''A'', url = ''a.org''\<rparr>, \<lparr>title = ''B'', url = ''b.org''\<rparr>,
          \<lparr>title = ''C'', url = ''c.org''\<rparr>],
        refresh_interval = 5000, slots_per_screen = 1,
        windows = [SingleW \<lparr>sw_pages = [\<lparr>title = ''A'', url = ''a.org''\<rparr>, \<lparr>title = ''B'', url = ''b.org''\<rparr>,
          \<lparr>title = ''C'', url = ''c.org''\<rparr>],
         sw_refresh_interval = 5000, current_index = 0, title_label = ''C'',
         webview = \<lparr>view_url = format_url ''c.org''\<rparr>, sw_visible = True\<rparr>]\<rparr>
       = Inr (calls, self')
     \<and> calls = [SetUrl (format_url ''a.org'')]
     \<and> windows self' = [SingleW \<lparr>sw_pages = [\<lparr>title = ''A'', url = ''a.org''\<rparr>, \<lparr>title = ''B'', url = ''b.org''\<rparr>,
          \<lparr>title = ''C'', url = ''c.org''\<rparr>],
         sw_refresh_interval = 5000, current_index = 1, title_label = ''A'',
         webview = \<lparr>view_url = format_url ''a.org''\<rparr>, sw_visible = True\<rparr>]
     \<and> apply_mode [\<lparr>geometry_x = 0, geometry_y = 0, geometry_width = 1920, geometry_height = 1080\<rparr>] self' = Inr (calls, self')
     \<and> tick_window (SingleW \<lparr>sw_pages = [\<lparr>title = ''A'', url = ''a.org''\<rparr>, \<lparr>title = ''B'', url = ''b.org''\<rparr>,
          \<lparr>title = ''C'', url = ''c.org''\<rparr>],
         sw_refresh_interval = 5000, current_index = 1, title_label = ''A'',
         webview = \<lparr>view_url = format_url ''a.org''\<rparr>, sw_visible = True\<rparr>)
        = Inr ([SetUrl (format_url ''b.org'')], SingleW \<lparr>sw_pages = [\<lparr>title = ''A'', url = ''a.org''\<rparr>, \<lparr>title = ''B'', url = ''b.org''\<rparr>,
          \<lparr>title = ''C'', url = ''c.org''\<rparr>],
         sw_refresh_interval = 5000, current_index = 2, title_label = ''B'',
         webview = \<lparr>view_url = format_url ''b.org''\<rparr>, sw_visible = True\<rparr>)
     \<and> apply_mode [\<lparr>geometry_x = 0, geometry_y = 0, geometry_width = 1920, geometry_height = 1080\<rparr>]
          (self'\<lparr>windows := [SingleW \<lparr>sw_pages = [\<lparr>title = ''A'', url = ''a.org''\<rparr>, \<lparr>title = ''B'', url = ''b.org''\<rparr>,
          \<lparr>title = ''C'', url = ''c.org''\<rparr>],
         sw_refresh_interval = 5000, current_index = 2, title_label = ''B'',
         webview = \<lparr>view_url = format_url ''b.org''\<rparr>, sw_visible = True\<rparr>]\<rparr>)
        = Inr (calls, self')"
proof -
  let ?scrs = "[\<lparr>geometry_x = 0, geometry_y = 0, geometry_width = 1920, geometry_height = 1080\<rparr>]"
  let ?ps = "[\<lparr>title = ''A'', url = ''a.org''\<rparr>, \<lparr>title = ''B'', url = ''b.org''\<rparr>,
          \<lparr>title = ''C'', url = ''c.org''\<rparr>]"
  let ?ctl = "\<lparr>mode = ''single'', pages = [\<lparr>title = ''A'', url = ''a.org''\<rparr>, \<lparr>title = ''B'', url = ''b.org''\<rparr>,
          \<lparr>title = ''C'', url = ''c.org''\<rparr>],
        refresh_interval = 5000, slots_per_screen = 1,
        windows = [SingleW \<lparr>sw_pages = [\<lparr>title = ''A'', url = ''a.org''\<rparr>, \<lparr>title = ''B'', url = ''b.org''\<rparr>,
          \<lparr>title = ''C'', url = ''c.org''\<rparr>],
         sw_refresh_interval = 5000, current_index = 0, title_label = ''C'',
         webview = \<lparr>view_url = format_url ''c.org''\<rparr>, sw_visible = True\<rparr>]\<rparr>"
  let ?w1 = "\<lparr>sw_pages = [\<lparr>title = ''A'', url = ''a.org''\<rparr>, \<lparr>title = ''B'', url = ''b.org''\<rparr>,
          \<lparr>title = ''C'', url = ''c.org''\<rparr>],
         sw_refresh_interval = 5000, current_index = 1, title_label = ''A'',
         webview = \<lparr>view_url = format_url ''a.org''\<rparr>, sw_visible = False\<rparr>"
  let ?w1v = "\<lparr>sw_pages = [\<lparr>title = ''A'', url = ''a.org''\<rparr>, \<lparr>title = ''B'', url = ''b.org''\<rparr>,
          \<lparr>title = ''C'', url = ''c.org''\<rparr>],
         sw_refresh_interval = 5000, current_index = 1, title_label = ''A'',
         webview = \<lparr>view_url = format_url ''a.org''\<rparr>, sw_visible = True\<rparr>"
  let ?w2v = "\<lparr>sw_pages = [\<lparr>title = ''A'', url = ''a.org''\<rparr>, \<lparr>title = ''B'', url = ''b.org''\<rparr>,
          \<lparr>title = ''C'', url = ''c.org''\<rparr>],
         sw_refresh_interval = 5000, current_index = 2, title_label = ''B'',
         webview = \<lparr>view_url = format_url ''b.org''\<rparr>, sw_visible = True\<rparr>"
  have init: "SingleScreenWindow_init ?ps 5000 = Inr ([SetUrl (format_url ''a.org'')], ?w1)"
    by (simp add: SingleScreenWindow_init_def SingleScreenWindow_fields_def show_next_page_def
        py_index_def setUrl_def QWebEngineView_def)
  have tk: "tick_window (SingleW ?w1v) = Inr ([SetUrl (format_url ''b.org'')], SingleW ?w2v)"
    by (simp add: tick_window_def show_next_page_def py_index_def setUrl_def)
  have s: "mode ?ctl = ''single''" by simp
  from apply_mode_idempotent [of ?scrs ?ctl]
  obtain calls self' where ap: "apply_mode ?scrs ?ctl = Inr (calls, self')"
    and again: "apply_mode ?scrs self' = Inr (calls, self')"
    and tick: "\<forall>i cs win'. i < length (windows self')
            \<and> tick_window (windows self' ! i) = Inr (cs, win') \<longrightarrow>
          apply_mode ?scrs (self'\<lparr>windows := (windows self')[i := win']\<rparr>) = Inr (calls, self')"
    and single: "mode ?ctl = ''single'' \<longrightarrow>
          (\<exists>w. SingleScreenWindow_init (pages ?ctl) (refresh_interval ?ctl) = Inr (calls, w)
             \<and> current_index (SingleScreenWindow_fields (pages ?ctl) (refresh_interval ?ctl)) = 0
             \<and> calls = (if pages ?ctl = [] then []
                         else [SetUrl (format_url (url (pages ?ctl ! 0)))])
             \<and> windows self' = [SingleW (w\<lparr>sw_visible := True\<rparr>)]
             \<and> current_index w
                = (if pages ?ctl = [] then 0 else 1 mod int (length (pages ?ctl))))"
    by (elim exE conjE)
  from single s obtain w
    where i: "SingleScreenWindow_init (pages ?ctl) (refresh_interval ?ctl) = Inr (calls, w)"
      and ws: "windows self' = [SingleW (w\<lparr>sw_visible := True\<rparr>)]"
    by blast
  from i init have c: "calls = [SetUrl (format_url ''a.org'')]" and w: "w = ?w1"
    by simp_all
  from ws w have ws': "windows self' = [SingleW ?w1v]" by simp
  from tick [rule_format, of 0 "[SetUrl (format_url ''b.org'')]" "SingleW ?w2v"] tk
  have after: "apply_mode ?scrs (self'\<lparr>windows := [SingleW ?w2v]\<rparr>) = Inr (calls, self')"
    by (simp add: ws')
  show ?thesis
    by (rule exI [of _ calls], rule exI [of _ self'])
      (simp only: ap c [symmetric] ws' again tk after simp_thms)
qed

section \<open>Saving the settings\<close>

lemma rejected_inputs:
  "py_int (strip ''abc'') = Inl ValueError"
  "py_int (strip ''1000'') = Inr 1000"
  "read_slots ''0'' = Inl ValueError"
  "collect_pages [''New | new.org''] = [\<lparr>title = ''New'', url = ''new.org''\<rparr>]"
  by code_simp+

text \<open>
  C4. \<open>save_settings\<close> on invalid input. The settings window lists the single page
  "New | new.org" while the controller holds the page Old; the windows \<open>ws\<close> are on
  screen. With the refresh interval "abc" the save is refused with a warning, nothing
  is applied (the windows stay \<open>ws\<close>) and nothing is saved, but the controller's pages
  are already replaced by the page New. With the refresh interval "1000" and the
  slots "0" the save is refused at the slots, and by then the controller's pages and
  its refresh interval (1000 instead of 5000) are both replaced. Mode and slots per
  screen are retained in both cases.
\<close>

theorem save_settings_invalid_input_changes_controller:
  "save_settings scrs
     \<lparr>page_list = [''New | new.org''], refresh_input = ''abc'', slots_input = ''2''\<rparr>
     \<lparr>mode = ''single'', pages = [\<lparr>title = ''Old'', url = ''old.org''\<rparr>],
      refresh_interval = 5000, slots_per_screen = 1, windows = ws\<rparr>
   = Inr ([MessageWarning ''Refresh interval must be a valid integer!''],
          \<lparr>mode = ''single'', pages = [\<lparr>title = ''New'', url = ''new.org''\<rparr>],
           refresh_interval = 5000, slots_per_screen = 1, windows = ws\<rparr>)
   \<and> save_settings scrs
     \<lparr>page_list = [''New | new.org''], refresh_input = ''1000'', slots_input = ''0''\<rparr>
     \<lparr>mode = ''single'', pages = [\<lparr>title = ''Old'', url = ''old.org''\<rparr>],
      refresh_interval = 5000, slots_per_screen = 1, windows = ws\<rparr>
   = Inr ([MessageWarning ''Slots per screen must be a valid positive integer!''],
          \<lparr>mode = ''single'', pages = [\<lparr>title = ''New'', url = ''new.org''\<rparr>],
           refresh_interval = 1000, slots_per_screen = 1, windows = ws\<rparr>)"
  by (simp add: save_settings_def rejected_inputs set_pages_def set_refresh_interval_def
      del: collect_pages.simps)

end
